theory Spec2Isabelle
  imports Main "HOL-Library.AList"
begin

section \<open>Strings and errors\<close>

text \<open>
  A JavaScript string is modelled as a HOL \<^typ>\<open>string\<close>, one \<^typ>\<open>char\<close> per UTF-16 code
  unit; the model covers the strings whose code units are all below 256.
  Exceptions are values of \<open>error\<close>. \<open>Unmodelled\<close> is not an exception of the program: it is
  what the regular-expression engine below answers on a pattern outside the fragment of the
  regular-expression language that it implements.
\<close>

datatype error = SyntaxError | RangeError | TypeError | Unmodelled

abbreviation backslash :: char where "backslash \<equiv> CHR 0x5C"
abbreviation newline :: char where "newline \<equiv> CHR 0x0A"

section \<open>The pattern matcher\<close>

subsection \<open>A fragment of \<open>RegExp\<close>\<close>

text \<open>
  \<open>new RegExp(src).test(s)\<close> for sources built from literal characters, identity escapes
  (a backslash before a character that is no letter, digit or underscore), the dot, the
  assertions \<open>^\<close> and \<open>$\<close> and the postfix star. The constructor throws \<open>SyntaxError\<close> on a
  star with nothing to repeat and on a backslash that ends the source.
\<close>

datatype atom = Lit char | AnyChar

datatype item = Bol | Eol | One atom | Star atom

definition is_word_char :: "char \<Rightarrow> bool" where
  "is_word_char c \<longleftrightarrow>
     (let k = of_char c :: nat
      in (48 \<le> k \<and> k \<le> 57) \<or> (65 \<le> k \<and> k \<le> 90) \<or> (97 \<le> k \<and> k \<le> 122) \<or> k = 95)"

definition is_meta :: "char \<Rightarrow> bool" where
  "is_meta c \<longleftrightarrow> c \<in> set ''()[]{}?+|''"

definition line_terminator :: "char \<Rightarrow> bool" where
  "line_terminator c \<longleftrightarrow> c = CHR 0x0A \<or> c = CHR 0x0D"

fun atom_ok :: "atom \<Rightarrow> char \<Rightarrow> bool" where
  "atom_ok (Lit a) c = (a = c)"
| "atom_ok AnyChar c = (\<not> line_terminator c)"

fun starred :: "atom \<Rightarrow> string \<Rightarrow> item \<times> string" where
  "starred a (c # cs) = (if c = CHR ''*'' then (Star a, cs) else (One a, c # cs))"
| "starred a [] = (One a, [])"

lemma starred_shorter: "length (snd (starred a cs)) \<le> length cs"
  by (cases cs) auto

function parse_regexp :: "string \<Rightarrow> error + item list" where
  "parse_regexp [] = Inr []"
| "parse_regexp (c # cs) =
     (if c = CHR ''^'' then map_sum id ((#) Bol) (parse_regexp cs)
      else if c = CHR ''$'' then map_sum id ((#) Eol) (parse_regexp cs)
      else if c = CHR ''*'' then Inl SyntaxError
      else if is_meta c then Inl Unmodelled
      else if c = backslash then
        (case cs of
           [] \<Rightarrow> Inl SyntaxError
         | e # es \<Rightarrow>
             if is_word_char e then Inl Unmodelled
             else map_sum id ((#) (fst (starred (Lit e) es))) (parse_regexp (snd (starred (Lit e) es))))
      else
        (let a = (if c = CHR ''.'' then AnyChar else Lit c)
         in map_sum id ((#) (fst (starred a cs))) (parse_regexp (snd (starred a cs)))))"
  by pat_completeness auto
termination
  by (relation "measure length") (auto simp: less_Suc_eq_le intro: le_SucI starred_shorter)

fun matches :: "item list \<Rightarrow> bool \<Rightarrow> string \<Rightarrow> bool" where
  "matches [] b s = True"
| "matches (Bol # r) b s = (b \<and> matches r b s)"
| "matches (Eol # r) b s = (s = [] \<and> matches r b s)"
| "matches (One a # r) b [] = False"
| "matches (One a # r) b (c # cs) = (atom_ok a c \<and> matches r False cs)"
| "matches (Star a # r) b [] = matches r b []"
| "matches (Star a # r) b (c # cs) =
     (matches r b (c # cs) \<or> (atom_ok a c \<and> matches (Star a # r) False cs))"

fun search :: "item list \<Rightarrow> bool \<Rightarrow> string \<Rightarrow> bool" where
  "search r b [] = matches r b []"
| "search r b (c # cs) = (matches r b (c # cs) \<or> search r False cs)"

definition RegExp_test :: "string \<Rightarrow> string \<Rightarrow> error + bool" where
  "RegExp_test src s = map_sum id (\<lambda>r. search r True s) (parse_regexp src)"

subsection \<open>isPathIgnored\<close>

text \<open>
  \<open>pattern.replace(/\./g, '\\.').replace(/\*/g, '.*')\<close> between \<open>'^'\<close> and \<open>'$'\<close>.
\<close>

definition replace_char :: "char \<Rightarrow> string \<Rightarrow> string \<Rightarrow> string" where
  "replace_char x by s = concat (map (\<lambda>c. if c = x then by else [c]) s)"

definition regexPattern :: "string \<Rightarrow> string" where
  "regexPattern pattern =
     ''^'' @ replace_char (CHR ''*'') ''.*'' (replace_char (CHR ''.'') [backslash, CHR ''.''] pattern) @ ''$''"

text \<open>
  \<open>this.gitignorePatterns.some(pattern => new RegExp(...).test(filePath))\<close>: the patterns are
  tried in order, the first match answers true, and a pattern that does not compile throws
  when it is reached. The engine \<open>re\<close> is a parameter: \<open>re src s\<close> is
  \<open>new RegExp(src).test(s)\<close>.
\<close>

type_synonym regexp_engine = "string \<Rightarrow> string \<Rightarrow> error + bool"

fun isPathIgnored :: "regexp_engine \<Rightarrow> string list \<Rightarrow> string \<Rightarrow> error + bool" where
  "isPathIgnored re [] filePath = Inr False"
| "isPathIgnored re (pattern # rest) filePath =
     (case re (regexPattern pattern) filePath of
        Inl e \<Rightarrow> Inl e
      | Inr True \<Rightarrow> Inr True
      | Inr False \<Rightarrow> isPathIgnored re rest filePath)"


section \<open>Loading the ignore file\<close>

text \<open>
  \<open>fs.readFile(GITIGNORE_PATH, 'utf-8')\<close> either gives the text of the file or throws an
  error object with an optional \<open>code\<close> and a \<open>message\<close>.
\<close>

datatype fs_error = FsError (err_code: "string option") (err_message: string)

text \<open>The white space and line terminators of ECMAScript among the code units below 256.\<close>

definition is_space :: "char \<Rightarrow> bool" where
  "is_space c \<longleftrightarrow> (of_char c :: nat) \<in> {9, 10, 11, 12, 13, 32, 160}"

definition trim :: "string \<Rightarrow> string" where
  "trim s = rev (dropWhile is_space (rev (dropWhile is_space s)))"

fun split_on :: "char \<Rightarrow> string \<Rightarrow> string list" where
  "split_on d [] = [[]]"
| "split_on d (c # cs) =
     (if c = d then [] # split_on d cs
      else (case split_on d cs of l # ls \<Rightarrow> (c # l) # ls | [] \<Rightarrow> [[c]]))"

definition startsWith :: "string \<Rightarrow> string \<Rightarrow> bool" where
  "startsWith s p \<longleftrightarrow> take (length p) s = p"

definition could_not_read :: "fs_error \<Rightarrow> string" where
  "could_not_read e = ''Warning: Could not read .gitignore: '' @ err_message e"

text \<open>
  \<open>loadGitignore\<close>: the value assigned to \<open>this.gitignorePatterns\<close> and the lines written
  with \<open>console.error\<close> (their text, without the colour). The \<open>catch\<close> block handles every
  error of the read and nothing else in the body throws, so the result has no error case.
\<close>

definition loadGitignore :: "fs_error + string \<Rightarrow> string list \<times> string list" where
  "loadGitignore r =
     (case r of
        Inr ignoreContent \<Rightarrow>
          (filter (\<lambda>line. line \<noteq> [] \<and> \<not> startsWith line ''#'')
             (map trim (split_on newline ignoreContent)), [])
      | Inl e \<Rightarrow>
          ([], if err_code e \<noteq> Some ''ENOENT'' then [could_not_read e] else []))"

section \<open>Reading and minifying the selected files\<close>

text \<open>
  The file system is a function from paths to contents, \<open>None\<close> where \<open>fs.readFile\<close> throws.
  The object \<open>code\<close> of \<open>readFiles\<close> is the list of its own properties in creation order:
  assigning to an existing key keeps its place, and assigning a string to \<open>__proto__\<close> creates
  no property. The \<open>console.error\<close> line of a failed read is not part of the model.
\<close>

type_synonym filesystem = "string \<Rightarrow> string option"

definition set_property :: "string \<Rightarrow> string \<Rightarrow> (string \<times> string) list \<Rightarrow> (string \<times> string) list" where
  "set_property k v obj = (if k = ''__proto__'' then obj else AList.update k v obj)"

fun readFiles_into :: "filesystem \<Rightarrow> string list \<Rightarrow> (string \<times> string) list \<Rightarrow> (string \<times> string) list" where
  "readFiles_into fs [] code = code"
| "readFiles_into fs (filePath # rest) code =
     (case fs filePath of
        Some fileContent \<Rightarrow> readFiles_into fs rest (set_property filePath fileContent code)
      | None \<Rightarrow> readFiles_into fs rest code)"

definition readFiles :: "filesystem \<Rightarrow> string list \<Rightarrow> (string \<times> string) list" where
  "readFiles fs filePaths = readFiles_into fs filePaths []"

text \<open>
  \<open>JSON.stringify\<close> of an object whose values are strings. Its keys are enumerated with the
  array indices first, in ascending order, then the other keys in creation order.
\<close>

definition is_digit :: "char \<Rightarrow> bool" where
  "is_digit c \<longleftrightarrow> (48::nat) \<le> of_char c \<and> (of_char c :: nat) \<le> 57"

definition digits_value :: "string \<Rightarrow> nat" where
  "digits_value s = foldl (\<lambda>n c. 10 * n + (of_char c - 48)) 0 s"

definition is_array_index :: "string \<Rightarrow> bool" where
  "is_array_index k \<longleftrightarrow>
     k \<noteq> [] \<and> list_all is_digit k \<and> (k = ''0'' \<or> hd k \<noteq> CHR ''0'') \<and> digits_value k < 4294967295"

definition own_keys_order :: "(string \<times> 'a) list \<Rightarrow> (string \<times> 'a) list" where
  "own_keys_order obj =
     sort_key (\<lambda>(k, v). digits_value k) (filter (\<lambda>(k, v). is_array_index k) obj)
       @ filter (\<lambda>(k, v). \<not> is_array_index k) obj"

definition hex_digit :: "nat \<Rightarrow> char" where
  "hex_digit n = ''0123456789abcdef'' ! (n mod 16)"

definition quote_char :: "char \<Rightarrow> string" where
  "quote_char c =
     (let k = of_char c :: nat in
      if c = CHR 0x22 then [backslash, CHR 0x22]
      else if c = backslash then [backslash, backslash]
      else if k = 8 then [backslash, CHR ''b'']
      else if k = 12 then [backslash, CHR ''f'']
      else if k = 10 then [backslash, CHR ''n'']
      else if k = 13 then [backslash, CHR ''r'']
      else if k = 9 then [backslash, CHR ''t'']
      else if k < 32 then [backslash, CHR ''u'', CHR ''0'', CHR ''0'', hex_digit (k div 16), hex_digit k]
      else [c])"

definition quote :: "string \<Rightarrow> string" where
  "quote s = [CHR 0x22] @ concat (map quote_char s) @ [CHR 0x22]"

fun join_with :: "string \<Rightarrow> string list \<Rightarrow> string" where
  "join_with sep [] = []"
| "join_with sep [x] = x"
| "join_with sep (x # y # ys) = x @ sep @ join_with sep (y # ys)"

definition JSON_stringify :: "(string \<times> string) list \<Rightarrow> string" where
  "JSON_stringify obj =
     ''{'' @ join_with '','' (map (\<lambda>(k, v). quote k @ '':'' @ quote v) (own_keys_order obj)) @ ''}''"

text \<open>
  \<open>codeJSON.replace(/\s+/g, ' ')\<close>: every maximal run of white space becomes one space. The
  flag says that the character before was white space, so that the run has its space already.
\<close>

fun replace_spaces :: "bool \<Rightarrow> string \<Rightarrow> string" where
  "replace_spaces inside [] = []"
| "replace_spaces inside (c # cs) =
     (if is_space c then (if inside then replace_spaces True cs else CHR '' '' # replace_spaces True cs)
      else c # replace_spaces False cs)"

text \<open>
  \<open>minifyAndSave\<close>: the path and the text handed to \<open>fs.writeFile\<close>
  (\<open>path.join\<close> with the separator of POSIX).
\<close>

definition JSON_DIR :: string where
  "JSON_DIR = ''json-project''"

definition minifyAndSave :: "filesystem \<Rightarrow> string list \<Rightarrow> string \<times> string" where
  "minifyAndSave fs selectedFiles =
     (let code = readFiles fs selectedFiles;
          codeJSON = JSON_stringify code;
          minifiedCodeJSON = replace_spaces False codeJSON
      in (JSON_DIR @ ''/'' @ ''project-code.min.json'', minifiedCodeJSON))"

section \<open>The selector: data\<close>

text \<open>
  The repository has three variants of the class \<open>CustomSelect\<close>: the two-column selector
  of \<open>src/minify-code.js\<close>, the scrolling two-column selector of
  \<open>src/build-structure.js\<close> (lines 342 to 569) and the grid selector of
  \<open>src/build-structure.js\<close> (lines 823 to 1043), which lays the items out in one to five
  columns. What the three share is written once; the functions of the first two variants
  carry the suffixes \<open>_plain\<close> and \<open>_pair\<close>, those of the grid selector have the names of
  the source.

  The numbers of the program are integers, except where a remainder by zero makes one
  \<open>NaN\<close>: that can happen to the cursor of the grid selector, whose type is \<open>jsnum\<close>.
  Every comparison with \<open>NaN\<close> is false and every sum with it is \<open>NaN\<close>.
\<close>

datatype jsnum = Num int | NaN

fun js_lt :: "jsnum \<Rightarrow> jsnum \<Rightarrow> bool" where
  "js_lt (Num a) (Num b) = (a < b)"
| "js_lt _ _ = False"

fun js_ge :: "jsnum \<Rightarrow> jsnum \<Rightarrow> bool" where
  "js_ge (Num a) (Num b) = (a \<ge> b)"
| "js_ge _ _ = False"

fun js_gt :: "jsnum \<Rightarrow> jsnum \<Rightarrow> bool" where
  "js_gt (Num a) (Num b) = (a > b)"
| "js_gt _ _ = False"

fun js_add :: "jsnum \<Rightarrow> jsnum \<Rightarrow> jsnum" where
  "js_add (Num a) (Num b) = Num (a + b)"
| "js_add _ _ = NaN"

fun js_min :: "jsnum \<Rightarrow> jsnum \<Rightarrow> jsnum" where
  "js_min (Num a) (Num b) = Num (min a b)"
| "js_min _ _ = NaN"

text \<open>The remainder \<open>a % b\<close> has the sign of \<open>a\<close>, and is \<open>NaN\<close> when \<open>b\<close> is zero.\<close>

fun js_mod :: "jsnum \<Rightarrow> int \<Rightarrow> jsnum" where
  "js_mod (Num a) b = (if b = 0 then NaN else Num (sgn a * (\<bar>a\<bar> mod \<bar>b\<bar>)))"
| "js_mod NaN b = NaN"

text \<open>\<open>xs[i]\<close> is \<open>undefined\<close> outside the array.\<close>

definition element :: "'a list \<Rightarrow> int \<Rightarrow> 'a option" where
  "element xs i = (if 0 \<le> i \<and> i < int (length xs) then Some (xs ! nat i) else None)"

text \<open>\<open>xs.slice(from, to)\<close>: a negative bound counts from the end, and both are clamped.\<close>

definition slice :: "'a list \<Rightarrow> int \<Rightarrow> int \<Rightarrow> 'a list" where
  "slice xs from to =
     (let len = int (length xs);
          k = (if from < 0 then max (len + from) 0 else min from len);
          final = (if to < 0 then max (len + to) 0 else min to len)
      in take (nat (final - k)) (drop (nat k) xs))"

text \<open>
  A choice of the prompt: its \<open>name\<close> is the path, \<open>enabled\<close> says whether it is selected.
  Its \<open>message\<close>, the coloured path, is only displayed.
\<close>

record choice =
  name :: string
  enabled :: bool

text \<open>
  The fields that every variant has; \<open>index\<close> is \<open>this.state.index\<close>, the linear position
  of the cursor in \<open>choices\<close>.
\<close>

record 'n select =
  choices :: "choice list"
  index :: 'n
  totalCharacters :: int
  selectedFilesCount :: int
  selectedFilesGitignore :: string
  gitignorePatterns :: "string list"

record 'n scrolling = "'n select" +
  visibleStart :: int
  terminalHeight :: int
  terminalWidth :: int
  visibleRows :: int

text \<open>
  The grid selector. \<open>this.maxColumns\<close> is assigned once, by the constructor, and is the
  constant \<open>maxColumns\<close> here.
\<close>

record grid = "jsnum scrolling" +
  currentColumn :: nat
  activeColumns :: nat

definition maxColumns :: nat where
  "maxColumns = 5"

text \<open>
  \<open>process.stdout.rows\<close> and \<open>process.stdout.columns\<close>; zero stands for \<open>undefined\<close> as
  well, since \<open>x || 24\<close> treats both alike.
\<close>

record stdout =
  rows :: nat
  columns :: nat

datatype key = Down | Up | Right | Left | Space | LetterA

datatype indicator = Unchecked | Checked | CheckedIgnored

section \<open>What the variants share\<close>

text \<open>
  The loop of the handlers of \<open>space\<close> and \<open>a\<close> over the choices: an enabled choice that
  an ignore rule matches becomes the warning, and the length of its file is added to the total
  when the file can be read. \<open>isPathIgnored\<close> is outside the \<open>try\<close>, so what it throws ends
  the loop and the handler.
\<close>

fun tally :: "regexp_engine \<Rightarrow> filesystem \<Rightarrow> choice list \<Rightarrow> ('n, 'a) select_scheme \<Rightarrow>
    ('n, 'a) select_scheme \<times> error option" where
  "tally re fs [] s = (s, None)"
| "tally re fs (c # cs) s =
     (if enabled c then
        (case isPathIgnored re (gitignorePatterns s) (name c) of
           Inl e \<Rightarrow> (s, Some e)
         | Inr ignored \<Rightarrow>
             let s1 = (if ignored then s\<lparr>selectedFilesGitignore := name c\<rparr> else s);
                 s2 = (case fs (name c) of
                         Some content \<Rightarrow>
                           s1\<lparr>totalCharacters := totalCharacters s1 + int (length content)\<rparr>
                       | None \<Rightarrow> s1)
             in tally re fs cs s2)
      else tally re fs cs s)"

text \<open>
  The statistics are reset and counted again from the choices, as both handlers do after
  they have changed the flags.
\<close>

definition recount :: "regexp_engine \<Rightarrow> filesystem \<Rightarrow> ('n, 'a) select_scheme \<Rightarrow>
    ('n, 'a) select_scheme \<times> error option" where
  "recount re fs s =
     tally re fs (choices s)
       (s\<lparr>totalCharacters := 0,
          selectedFilesCount := int (length (filter enabled (choices s))),
          selectedFilesGitignore := []\<rparr>)"

definition toggled :: "choice \<Rightarrow> choice" where
  "toggled c = c\<lparr>enabled := \<not> enabled c\<rparr>"

text \<open>The handler of \<open>a\<close>, before it renders.\<close>

definition toggleAll :: "regexp_engine \<Rightarrow> filesystem \<Rightarrow> ('n, 'a) select_scheme \<Rightarrow>
    ('n, 'a) select_scheme \<times> error option" where
  "toggleAll re fs s =
     (let allSelected = list_all enabled (choices s)
      in recount re fs (s\<lparr>choices := map (\<lambda>c. c\<lparr>enabled := \<not> allSelected\<rparr>) (choices s)\<rparr>))"

text \<open>The indicator of a cell; the placeholder of an empty cell is not enabled.\<close>

definition indicator_of :: "regexp_engine \<Rightarrow> string list \<Rightarrow> choice option \<Rightarrow> error + indicator" where
  "indicator_of re patterns cell =
     (case cell of
        None \<Rightarrow> Inr Unchecked
      | Some c \<Rightarrow>
          if enabled c then
            map_sum id (\<lambda>ignored. if ignored then CheckedIgnored else Checked)
              (isPathIgnored re patterns (name c))
          else Inr Unchecked)"

text \<open>The first error of a sequence of computations, or all their results.\<close>

fun in_order :: "(error + 'a) list \<Rightarrow> error + 'a list" where
  "in_order [] = Inr []"
| "in_order (Inl e # _) = Inl e"
| "in_order (Inr x # rest) = map_sum id ((#) x) (in_order rest)"

section \<open>The grid selector\<close>

definition updateTerminalDimensions :: "stdout \<Rightarrow> grid \<Rightarrow> grid" where
  "updateTerminalDimensions out s =
     (let h = (if rows out = 0 then 24 else int (rows out));
          w = (if columns out = 0 then 80 else int (columns out))
      in s\<lparr>terminalHeight := h,
           terminalWidth := w,
           visibleRows := max 1 (h - 4),
           activeColumns := min maxColumns (max 1 (nat (w div 100)))\<rparr>)"

text \<open>
  \<open>Math.ceil(this.choices.length / this.activeColumns)\<close>. The quotient is the one of the
  program when there is at least one column, as there is after \<open>updateTerminalDimensions\<close>.
\<close>

definition itemsPerColumn :: "grid \<Rightarrow> int" where
  "itemsPerColumn s = int ((length (choices s) + activeColumns s - 1) div activeColumns s)"

definition grid_columns :: "grid \<Rightarrow> choice list list" where
  "grid_columns s =
     map (\<lambda>i. slice (choices s) (int i * itemsPerColumn s) ((int i + 1) * itemsPerColumn s))
       [0..<activeColumns s]"

definition maxColumnHeight :: "grid \<Rightarrow> int" where
  "maxColumnHeight s = Max (set (map (\<lambda>col. int (length col)) (grid_columns s)))"

definition listHeight :: "grid \<Rightarrow> int" where
  "listHeight s = min (maxColumnHeight s) (visibleRows s)"

definition localIndex :: "grid \<Rightarrow> jsnum" where
  "localIndex s = js_mod (index s) (itemsPerColumn s)"

text \<open>
  The rows of the frame, as \<open>render\<close> builds them: for each visible row and each column the
  indicator of the cell and whether it is highlighted. The text of the frame (borders, colours,
  truncation and padding) is not modelled.
\<close>

definition frame_rows :: "regexp_engine \<Rightarrow> grid \<Rightarrow> error + (indicator \<times> bool) list list" where
  "frame_rows re s =
     in_order (map (\<lambda>i.
       let rowIndex = visibleStart s + int i
       in in_order (map (\<lambda>col.
            let cell = element (grid_columns s ! col) rowIndex;
                colIndex = int col * itemsPerColumn s + rowIndex;
                isActive = (col = currentColumn s \<and> index s = Num colIndex)
            in map_sum id (\<lambda>ind. (ind, isActive)) (indicator_of re (gitignorePatterns s) cell))
          [0..<activeColumns s]))
       [0..<nat (listHeight s)])"

text \<open>
  The three assignments of \<open>render\<close>: the cursor is brought back below the number of
  choices, the window of visible rows is moved to the row of the cursor, and the start of the
  window is clamped.
\<close>

definition clamp_index :: "grid \<Rightarrow> grid" where
  "clamp_index s =
     (if js_ge (index s) (Num (int (length (choices s))))
      then s\<lparr>index := Num (int (length (choices s)) - 1)\<rparr> else s)"

definition scroll_to_cursor :: "grid \<Rightarrow> grid" where
  "scroll_to_cursor s =
     (case localIndex s of
        NaN \<Rightarrow> s
      | Num l \<Rightarrow>
          if l < visibleStart s then s\<lparr>visibleStart := l\<rparr>
          else if l \<ge> visibleStart s + listHeight s then s\<lparr>visibleStart := l - listHeight s + 1\<rparr>
          else s)"

definition clamp_scroll :: "grid \<Rightarrow> grid" where
  "clamp_scroll s =
     (let maxRows = int (length (grid_columns s ! currentColumn s))
      in s\<lparr>visibleStart := max 0 (min (visibleStart s) (maxRows - listHeight s))\<rparr>)"

text \<open>
  \<open>render\<close>: the prompt after the call, and what the call threw. It throws \<open>RangeError\<close> when
  the borders are to repeat a character \<open>innerWidth < 0\<close> times, \<open>TypeError\<close> when
  \<open>columns[this.currentColumn]\<close> is \<open>undefined\<close>, and what \<open>isPathIgnored\<close> throws on a
  visible enabled choice. The assignments made before the throw stay.
\<close>

definition render :: "regexp_engine \<Rightarrow> stdout \<Rightarrow> grid \<Rightarrow> grid \<times> error option" where
  "render re out s0 =
     (let s1 = updateTerminalDimensions out s0;
          innerWidth = terminalWidth s1 - 2
      in if innerWidth < 0 then (s1, Some RangeError)
         else if currentColumn s1 \<ge> length (grid_columns s1) then (s1, Some TypeError)
         else
           let s2 = clamp_scroll (scroll_to_cursor (clamp_index s1))
           in (case frame_rows re s2 of Inl e \<Rightarrow> (s2, Some e) | Inr frame \<Rightarrow> (s2, None)))"

text \<open>A step that is followed by \<open>await this.render()\<close> unless it threw.\<close>

definition then_render :: "regexp_engine \<Rightarrow> stdout \<Rightarrow> grid \<times> error option \<Rightarrow> grid \<times> error option" where
  "then_render re out r = (case snd r of Some e \<Rightarrow> r | None \<Rightarrow> render re out (fst r))"

text \<open>
  The branches of \<open>keypress\<close> for the four arrows, up to the call of \<open>render\<close>. The number of
  items per column is computed from \<open>this.activeColumns\<close> as the last call of
  \<open>updateTerminalDimensions\<close> left it.
\<close>

definition currentColumnStart :: "grid \<Rightarrow> int" where
  "currentColumnStart s = int (currentColumn s) * itemsPerColumn s"

definition currentRow :: "grid \<Rightarrow> jsnum" where
  "currentRow s = js_mod (index s) (itemsPerColumn s)"

definition move_down :: "grid \<Rightarrow> grid" where
  "move_down s =
     (if js_lt (index s) (Num (currentColumnStart s + itemsPerColumn s - 1)) \<and>
         js_lt (index s) (Num (int (length (choices s)) - 1))
      then s\<lparr>index := js_add (index s) (Num 1)\<rparr> else s)"

definition move_up :: "grid \<Rightarrow> grid" where
  "move_up s =
     (if js_gt (index s) (Num (currentColumnStart s))
      then s\<lparr>index := js_add (index s) (Num (- 1))\<rparr> else s)"

definition move_to_column :: "nat \<Rightarrow> grid \<Rightarrow> grid" where
  "move_to_column col s =
     (let newColumnStart = int col * itemsPerColumn s
      in s\<lparr>currentColumn := col,
           index := js_min (js_add (Num newColumnStart) (currentRow s))
                      (Num (int (length (choices s)) - 1))\<rparr>)"

text \<open>The branch of \<open>space\<close>, up to the call of \<open>render\<close>; \<open>None\<close> when there is no choice at the cursor.\<close>

definition toggle_at :: "regexp_engine \<Rightarrow> filesystem \<Rightarrow> ('n, 'a) select_scheme \<Rightarrow> int \<Rightarrow>
    (('n, 'a) select_scheme \<times> error option) option" where
  "toggle_at re fs s i =
     (case element (choices s) i of
        Some c \<Rightarrow> Some (recount re fs (s\<lparr>choices := (choices s)[nat i := toggled c]\<rparr>))
      | None \<Rightarrow> None)"

text \<open>
  \<open>keypress\<close> on the keys that the class handles itself; every other key goes to the
  \<open>keypress\<close> of the library's \<open>Select\<close>. \<open>out\<close> is the terminal as \<open>render\<close> finds it.
  A key that changes nothing at the edge of the grid returns without rendering.
\<close>

definition keypress :: "regexp_engine \<Rightarrow> filesystem \<Rightarrow> stdout \<Rightarrow> key \<Rightarrow> grid \<Rightarrow> grid \<times> error option" where
  "keypress re fs out k s =
     (case k of
        Down \<Rightarrow> render re out (move_down s)
      | Up \<Rightarrow> render re out (move_up s)
      | Right \<Rightarrow>
          if int (currentColumn s) < int (activeColumns s) - 1
          then render re out (move_to_column (currentColumn s + 1) s) else (s, None)
      | Left \<Rightarrow>
          if currentColumn s > 0
          then render re out (move_to_column (currentColumn s - 1) s) else (s, None)
      | Space \<Rightarrow>
          (case index s of
             Num i \<Rightarrow>
               (case toggle_at re fs s i of
                  Some r \<Rightarrow> then_render re out r
                | None \<Rightarrow> (s, None))
           | NaN \<Rightarrow> (s, None))
      | LetterA \<Rightarrow> then_render re out (toggleAll re fs s))"

text \<open>The listener of \<open>resize\<close> that the constructor installs.\<close>

definition resize :: "regexp_engine \<Rightarrow> stdout \<Rightarrow> grid \<Rightarrow> grid \<times> error option" where
  "resize re out s = render re out (updateTerminalDimensions out s)"

text \<open>
  The prompt as the constructor leaves it: nothing selected, the cursor on the first choice of
  the first column, no ignore rule loaded yet.
\<close>

definition constructed :: "stdout \<Rightarrow> string list \<Rightarrow> grid" where
  "constructed out filePaths =
     updateTerminalDimensions out
       \<lparr>choices = map (\<lambda>p. \<lparr>name = p, enabled = False\<rparr>) filePaths,
        index = Num 0,
        totalCharacters = 0,
        selectedFilesCount = 0,
        selectedFilesGitignore = [],
        gitignorePatterns = [],
        visibleStart = 0,
        terminalHeight = 0,
        terminalWidth = 0,
        visibleRows = 0,
        currentColumn = 0,
        activeColumns = 0\<rparr>"

section \<open>The scrolling two-column selector\<close>

text \<open>\<open>this.column\<close> is \<open>'left'\<close> or \<open>'right'\<close>.\<close>

datatype side = OnLeft | OnRight

record pair = "int scrolling" +
  column :: side

definition updateTerminalDimensions_pair :: "stdout \<Rightarrow> pair \<Rightarrow> pair" where
  "updateTerminalDimensions_pair out s =
     (let h = (if rows out = 0 then 24 else int (rows out));
          w = (if columns out = 0 then 80 else int (columns out))
      in s\<lparr>terminalHeight := h, terminalWidth := w, visibleRows := max 1 (h - 4)\<rparr>)"

text \<open>\<open>Math.ceil(this.choices.length / 2)\<close>.\<close>

definition midPoint :: "('n, 'a) select_scheme \<Rightarrow> int" where
  "midPoint s = (int (length (choices s)) + 1) div 2"

definition maxLeftRows :: "('n, 'a) select_scheme \<Rightarrow> int" where
  "maxLeftRows s = midPoint s"

definition maxRightRows :: "('n, 'a) select_scheme \<Rightarrow> int" where
  "maxRightRows s = int (length (choices s)) - midPoint s"

definition leftColumn :: "('n, 'a) select_scheme \<Rightarrow> choice list" where
  "leftColumn s = slice (choices s) 0 (midPoint s)"

definition rightColumn :: "('n, 'a) select_scheme \<Rightarrow> choice list" where
  "rightColumn s = slice (choices s) (midPoint s) (int (length (choices s)))"

definition listHeight_pair :: "pair \<Rightarrow> int" where
  "listHeight_pair s = max 1 (terminalHeight s - 2 - 2)"

text \<open>
  The adjustment of \<open>render\<close> for the active column. In the right column the row of the
  cursor, \<open>rightIndex\<close>, is computed before the cursor is brought back.
\<close>

definition adjust_left :: "pair \<Rightarrow> pair" where
  "adjust_left s0 =
     (let s = (if index s0 \<ge> maxLeftRows s0 then s0\<lparr>index := maxLeftRows s0 - 1\<rparr> else s0)
      in if index s < visibleStart s then s\<lparr>visibleStart := index s\<rparr>
         else if index s \<ge> visibleStart s + listHeight_pair s
         then s\<lparr>visibleStart := index s - listHeight_pair s + 1\<rparr>
         else s)"

definition adjust_right :: "pair \<Rightarrow> pair" where
  "adjust_right s0 =
     (let rightIndex = index s0 - midPoint s0;
          s = (if rightIndex \<ge> maxRightRows s0
               then s0\<lparr>index := midPoint s0 + maxRightRows s0 - 1\<rparr> else s0)
      in if rightIndex < visibleStart s then s\<lparr>visibleStart := rightIndex\<rparr>
         else if rightIndex \<ge> visibleStart s + listHeight_pair s
         then s\<lparr>visibleStart := rightIndex - listHeight_pair s + 1\<rparr>
         else s)"

definition clamp_scroll_pair :: "pair \<Rightarrow> pair" where
  "clamp_scroll_pair s =
     s\<lparr>visibleStart :=
         max 0 (min (visibleStart s) (max (maxLeftRows s) (maxRightRows s) - listHeight_pair s))\<rparr>"

text \<open>The rows of the frame: the indicator and the highlight of the left and of the right cell.\<close>

definition frame_rows_pair :: "regexp_engine \<Rightarrow> pair \<Rightarrow> error + (indicator \<times> bool) list list" where
  "frame_rows_pair re s =
     in_order (map (\<lambda>i.
       let rowIndex = visibleStart s + int i
       in in_order
            [map_sum id (\<lambda>ind. (ind, column s = OnLeft \<and> rowIndex = index s))
               (indicator_of re (gitignorePatterns s) (element (leftColumn s) rowIndex)),
             map_sum id (\<lambda>ind. (ind, column s = OnRight \<and> rowIndex = index s - midPoint s))
               (indicator_of re (gitignorePatterns s) (element (rightColumn s) rowIndex))])
       [0..<nat (listHeight_pair s)])"

text \<open>
  \<open>render\<close>: it throws \<open>RangeError\<close> when the borders are to repeat a character
  \<open>innerWidth < 0\<close> times, and what \<open>isPathIgnored\<close> throws on a visible enabled choice.
\<close>

definition render_pair :: "regexp_engine \<Rightarrow> stdout \<Rightarrow> pair \<Rightarrow> pair \<times> error option" where
  "render_pair re out s0 =
     (let s1 = updateTerminalDimensions_pair out s0;
          innerWidth = terminalWidth s1 - 2
      in if innerWidth < 0 then (s1, Some RangeError)
         else
           let s2 = clamp_scroll_pair (if column s1 = OnLeft then adjust_left s1 else adjust_right s1)
           in (case frame_rows_pair re s2 of Inl e \<Rightarrow> (s2, Some e) | Inr frame \<Rightarrow> (s2, None)))"

definition then_render_pair :: "regexp_engine \<Rightarrow> stdout \<Rightarrow> pair \<times> error option \<Rightarrow> pair \<times> error option" where
  "then_render_pair re out r = (case snd r of Some e \<Rightarrow> r | None \<Rightarrow> render_pair re out (fst r))"

text \<open>The branches of \<open>keypress\<close> for the arrows, up to the call of \<open>render\<close>.\<close>

definition move_down_pair :: "pair \<Rightarrow> pair" where
  "move_down_pair s =
     (if column s = OnLeft \<and> index s < maxLeftRows s - 1 then s\<lparr>index := index s + 1\<rparr>
      else if column s = OnRight \<and> index s < int (length (choices s)) - 1 then s\<lparr>index := index s + 1\<rparr>
      else s)"

definition move_up_pair :: "pair \<Rightarrow> pair" where
  "move_up_pair s =
     (if index s > (if column s = OnLeft then 0 else midPoint s) then s\<lparr>index := index s - 1\<rparr> else s)"

definition switch_column :: "side \<Rightarrow> pair \<Rightarrow> pair" where
  "switch_column newColumn s =
     (case newColumn of
        OnLeft \<Rightarrow> s\<lparr>column := OnLeft, index := min (index s) (maxLeftRows s - 1)\<rparr>
      | OnRight \<Rightarrow>
          s\<lparr>column := OnRight,
            index := min (if index s < midPoint s then midPoint s else index s)
                       (int (length (choices s)) - 1)\<rparr>)"

text \<open>
  \<open>keypress\<close> on the keys that the class handles itself. An arrow towards the column that
  is active already returns without rendering.
\<close>

definition keypress_pair :: "regexp_engine \<Rightarrow> filesystem \<Rightarrow> stdout \<Rightarrow> key \<Rightarrow> pair \<Rightarrow> pair \<times> error option" where
  "keypress_pair re fs out k s =
     (case k of
        Down \<Rightarrow> render_pair re out (move_down_pair s)
      | Up \<Rightarrow> render_pair re out (move_up_pair s)
      | Right \<Rightarrow> if column s \<noteq> OnRight then render_pair re out (switch_column OnRight s) else (s, None)
      | Left \<Rightarrow> if column s \<noteq> OnLeft then render_pair re out (switch_column OnLeft s) else (s, None)
      | Space \<Rightarrow>
          (case toggle_at re fs s (index s) of
             Some r \<Rightarrow> then_render_pair re out r
           | None \<Rightarrow> (s, None))
      | LetterA \<Rightarrow> then_render_pair re out (toggleAll re fs s))"

definition constructed_pair :: "stdout \<Rightarrow> string list \<Rightarrow> pair" where
  "constructed_pair out filePaths =
     updateTerminalDimensions_pair out
       \<lparr>choices = map (\<lambda>p. \<lparr>name = p, enabled = False\<rparr>) filePaths,
        index = 0,
        totalCharacters = 0,
        selectedFilesCount = 0,
        selectedFilesGitignore = [],
        gitignorePatterns = [],
        visibleStart = 0,
        terminalHeight = 0,
        terminalWidth = 0,
        visibleRows = 0,
        column = OnLeft\<rparr>"

section \<open>The two-column selector of \<open>minify-code.js\<close>\<close>

text \<open>
  Its field \<open>this.column\<close> is \<open>column_plain\<close> here. The class also overrides \<open>toggle\<close>,
  which the handlers of the library call; that method is not part of the model.
\<close>

record plain = "int select" +
  column_plain :: side

text \<open>
  \<open>render\<close> assigns nothing. For each row it computes the two indicators, then pads the two
  cells to \<open>halfWidth\<close>, which throws \<open>RangeError\<close> when \<open>halfWidth < 0\<close>.
\<close>

definition halfWidth :: "stdout \<Rightarrow> int" where
  "halfWidth out = (if columns out = 0 then 80 else int (columns out)) div 2 - 2"

definition frame_rows_plain :: "regexp_engine \<Rightarrow> stdout \<Rightarrow> plain \<Rightarrow> error + (indicator \<times> bool) list list" where
  "frame_rows_plain re out s =
     (let isLeftColumn = index s < midPoint s;
          rowIndex = (if isLeftColumn then index s else index s - midPoint s)
      in in_order (map (\<lambda>i.
           case in_order
             [map_sum id (\<lambda>ind. (ind, column_plain s = OnLeft \<and> int i = rowIndex))
                (indicator_of re (gitignorePatterns s) (element (leftColumn s) (int i))),
              map_sum id (\<lambda>ind. (ind, column_plain s = OnRight \<and> int i = rowIndex))
                (indicator_of re (gitignorePatterns s) (element (rightColumn s) (int i)))]
           of Inl e \<Rightarrow> Inl e
            | Inr cells \<Rightarrow> if halfWidth out < 0 then Inl RangeError else Inr cells)
           [0..<max (length (leftColumn s)) (length (rightColumn s))]))"

definition render_plain :: "regexp_engine \<Rightarrow> stdout \<Rightarrow> plain \<Rightarrow> plain \<times> error option" where
  "render_plain re out s =
     (case frame_rows_plain re out s of Inl e \<Rightarrow> (s, Some e) | Inr frame \<Rightarrow> (s, None))"

text \<open>
  The branch of \<open>keypress\<close> for \<open>right\<close> and \<open>left\<close>: either key changes the side, and the
  cursor follows when the other column has the row.
\<close>

definition flip_column :: "plain \<Rightarrow> plain" where
  "flip_column s =
     (let isLeftColumn = index s < midPoint s;
          rowIndex = (if isLeftColumn then index s else index s - midPoint s);
          s1 = s\<lparr>column_plain := (if column_plain s = OnLeft then OnRight else OnLeft)\<rparr>
      in if column_plain s1 = OnRight \<and> rowIndex < int (length (choices s)) - midPoint s
         then s1\<lparr>index := midPoint s + rowIndex\<rparr>
         else if column_plain s1 = OnLeft then s1\<lparr>index := rowIndex\<rparr>
         else s1)"

text \<open>
  \<open>keypress\<close>: \<open>None\<close> where the key goes to the \<open>keypress\<close> of the library's \<open>Select\<close>,
  which is every key but \<open>right\<close>, \<open>left\<close> and a \<open>space\<close> on a choice.
\<close>

definition keypress_plain :: "regexp_engine \<Rightarrow> filesystem \<Rightarrow> stdout \<Rightarrow> key \<Rightarrow> plain \<Rightarrow>
    (plain \<times> error option) option" where
  "keypress_plain re fs out k s =
     (case k of
        Right \<Rightarrow> Some (render_plain re out (flip_column s))
      | Left \<Rightarrow> Some (render_plain re out (flip_column s))
      | Space \<Rightarrow>
          (case toggle_at re fs s (index s) of
             Some r \<Rightarrow> Some (case snd r of Some e \<Rightarrow> r | None \<Rightarrow> render_plain re out (fst r))
           | None \<Rightarrow> None)
      | _ \<Rightarrow> None)"

definition constructed_plain :: "string list \<Rightarrow> plain" where
  "constructed_plain filePaths =
     \<lparr>choices = map (\<lambda>p. \<lparr>name = p, enabled = False\<rparr>) filePaths,
      index = 0,
      totalCharacters = 0,
      selectedFilesCount = 0,
      selectedFilesGitignore = [],
      gitignorePatterns = [],
      column_plain = OnLeft\<rparr>"

section \<open>Runs of the selectors\<close>

text \<open>
  The prompts after each key of a sequence; every key comes with the terminal that the
  \<open>render\<close> of its handler finds. A handler that threw leaves the prompt as it was at the
  throw, and the next key finds it so.
\<close>

fun after_keys :: "regexp_engine \<Rightarrow> filesystem \<Rightarrow> (stdout \<times> key) list \<Rightarrow> grid \<Rightarrow> grid list" where
  "after_keys re fs [] s = []"
| "after_keys re fs ((out, k) # rest) s =
     fst (keypress re fs out k s) # after_keys re fs rest (fst (keypress re fs out k s))"

fun after_keys_pair :: "regexp_engine \<Rightarrow> filesystem \<Rightarrow> (stdout \<times> key) list \<Rightarrow> pair \<Rightarrow> pair list" where
  "after_keys_pair re fs [] s = []"
| "after_keys_pair re fs ((out, k) # rest) s =
     fst (keypress_pair re fs out k s) # after_keys_pair re fs rest (fst (keypress_pair re fs out k s))"

text \<open>
  What happens to the grid selector between its first frame and its end: a key, a resize
  of the terminal, or the end of \<open>loadGitignore\<close>, which the constructor starts and does not
  await.
\<close>

datatype event = Key key | Resized | Loaded "fs_error + string"

definition step :: "regexp_engine \<Rightarrow> filesystem \<Rightarrow> stdout \<Rightarrow> event \<Rightarrow> grid \<Rightarrow> grid \<times> error option" where
  "step re fs out ev s =
     (case ev of
        Key k \<Rightarrow> keypress re fs out k s
      | Resized \<Rightarrow> resize re out s
      | Loaded r \<Rightarrow> (s\<lparr>gitignorePatterns := fst (loadGitignore r)\<rparr>, None))"

fun run :: "regexp_engine \<Rightarrow> filesystem \<Rightarrow> (stdout \<times> event) list \<Rightarrow> grid \<Rightarrow> grid" where
  "run re fs [] s = s"
| "run re fs ((out, ev) # rest) s = run re fs rest (fst (step re fs out ev s))"

section \<open>Notions for the properties\<close>

text \<open>The cursor is on a choice: \<open>0 \<le> index < choices.length\<close>.\<close>

fun below :: "jsnum \<Rightarrow> int \<Rightarrow> bool" where
  "below (Num i) n = (0 \<le> i \<and> i < n)"
| "below NaN n = False"

definition cursor_in_range :: "(jsnum, 'a) select_scheme \<Rightarrow> bool" where
  "cursor_in_range s = below (index s) (int (length (choices s)))"

definition index_in_range :: "(int, 'a) select_scheme \<Rightarrow> bool" where
  "index_in_range s \<longleftrightarrow> 0 \<le> index s \<and> index s < int (length (choices s))"

text \<open>The condition under which \<open>render\<close> moves the cursor of the grid selector.\<close>

definition past_end :: "(jsnum, 'a) select_scheme \<Rightarrow> bool" where
  "past_end s = js_ge (index s) (Num (int (length (choices s))))"

text \<open>
  The column of the grid that holds the choice at the cursor, \<open>floor(index / itemsPerColumn)\<close>;
  it is no column when the cursor is \<open>NaN\<close> or there are zero items per column.
\<close>

fun column_of :: "jsnum \<Rightarrow> int \<Rightarrow> jsnum" where
  "column_of (Num i) ipc = (if ipc = 0 then NaN else Num (i div ipc))"
| "column_of NaN ipc = NaN"

text \<open>The active column of the grid selector is the column of the cursor.\<close>

definition column_consistent :: "grid \<Rightarrow> bool" where
  "column_consistent s \<longleftrightarrow> column_of (index s) (itemsPerColumn s) = Num (int (currentColumn s))"

text \<open>
  The statistics are up to date: counting again gives the prompt itself. That is so when the
  prompt is constructed and after every \<open>space\<close> and \<open>a\<close>, as long as the ignore rules and the
  files stay the same.
\<close>

definition stats_current :: "regexp_engine \<Rightarrow> filesystem \<Rightarrow> ('n, 'a) select_scheme \<Rightarrow> bool" where
  "stats_current re fs s \<longleftrightarrow> fst (recount re fs s) = s"

text \<open>No white space follows white space in a string; \<open>p\<close> says that white space came before it.\<close>

fun single_spaced :: "bool \<Rightarrow> string \<Rightarrow> bool" where
  "single_spaced p [] = True"
| "single_spaced p (c # cs) = (\<not> (p \<and> is_space c) \<and> single_spaced (is_space c) cs)"

text \<open>
  Two strings are alike when \<open>replace_spaces\<close> gives the same for both, in every context:
  after white space or not, and whatever follows.
\<close>

definition ends_space :: "bool \<Rightarrow> string \<Rightarrow> bool" where
  "ends_space b x = (if x = [] then b else is_space (last x))"

definition alike :: "string \<Rightarrow> string \<Rightarrow> bool" where
  "alike x y \<longleftrightarrow> (\<forall>b. replace_spaces b x = replace_spaces b y \<and> ends_space b x = ends_space b y)"

definition alike_objects :: "(string \<times> string) list \<Rightarrow> (string \<times> string) list \<Rightarrow> bool" where
  "alike_objects = list_all2 (\<lambda>(k, v) (k', v'). k = k' \<and> alike (quote v) (quote v'))"

text \<open>The white space that \<open>JSON.stringify\<close> does not escape: the space and the no-break space.\<close>

definition plain_space :: "char \<Rightarrow> bool" where
  "plain_space c \<longleftrightarrow> (of_char c :: nat) \<in> {32, 160}"

section \<open>Sample inputs\<close>

text \<open>
  Terminals of 24 rows that are 80, 200, 250 and 300 columns wide, which gives one, two, two
  and three columns, and a terminal of one row and one column.
\<close>

definition narrow :: stdout where
  "narrow = \<lparr>rows = 24, columns = 80\<rparr>"

definition two_columns :: stdout where
  "two_columns = \<lparr>rows = 24, columns = 200\<rparr>"

definition wide :: stdout where
  "wide = \<lparr>rows = 24, columns = 250\<rparr>"

definition three_columns :: stdout where
  "three_columns = \<lparr>rows = 24, columns = 300\<rparr>"

definition tiny :: stdout where
  "tiny = \<lparr>rows = 1, columns = 1\<rparr>"

text \<open>
  A project of two files, to which the ignore rule \<open>*.env\<close> applies, and a file of two
  lines, the second indented with a tab, and no space.
\<close>

definition project :: filesystem where
  "project p = (if p = ''.env'' then Some ''SECRET=1'' else if p = ''a.js'' then Some ''let a'' else None)"

definition memo :: filesystem where
  "memo p = (if p = ''f.txt'' then Some (''a'' @ [newline, CHR 0x09] @ ''b'') else None)"

text \<open>A prompt of seven files on two columns with the cursor moved down three times.\<close>

definition seven :: "string list" where
  "seven = [''a'', ''b'', ''c'', ''d'', ''e'', ''f'', ''g'']"

definition row3 :: grid where
  "row3 = run RegExp_test (\<lambda>p. None) [(wide, Key Down), (wide, Key Down), (wide, Key Down)]
            (constructed wide seven)"

text \<open>The same prompt after its first frame and the keys \<open>right\<close> and \<open>down\<close>.\<close>

definition browsing :: grid where
  "browsing = run RegExp_test project [(wide, Key Right), (wide, Key Down)]
                (fst (render RegExp_test wide (constructed wide seven)))"

text \<open>A prompt of three files of which the first is selected.\<close>

definition mixed :: grid where
  "mixed = run RegExp_test (\<lambda>p. None) [(wide, Key Space)] (constructed wide [''a'', ''b'', ''c''])"


text \<open>
  The selector of \<open>minify-code.js\<close> on the seven files with the cursor on index 3, where
  three presses of \<open>down\<close>, which the library's \<open>Select\<close> handles, take it.
\<close>

definition row3_plain :: plain where
  "row3_plain = (constructed_plain seven)\<lparr>index := 3\<rparr>"




section \<open>Properties of the pattern matcher\<close>

lemmas matcher_defs =
  RegExp_test_def regexPattern_def replace_char_def is_meta_def is_word_char_def line_terminator_def

text \<open>
  C1, as the code has it: \<open>*.env\<close> is translated to \<open>^.*\.env$\<close>, whose star also matches the
  empty string, so the rule set \<open>["*.env"]\<close> does match the path \<open>.env\<close>; the rule set
  \<open>["secrets/*"]\<close> matches \<open>secrets/keys.json\<close> and, the match being anchored at both ends,
  does not match \<open>other/secrets/keys.json\<close>.
\<close>

theorem isPathIgnored_anchored_globs:
  "regexPattern ''*.env'' = ''^.*'' @ [backslash] @ ''.env$'' \<and>
   isPathIgnored RegExp_test [''*.env''] ''.env'' = Inr True \<and>
   isPathIgnored RegExp_test [''secrets/*''] ''secrets/keys.json'' = Inr True \<and>
   isPathIgnored RegExp_test [''secrets/*''] ''other/secrets/keys.json'' = Inr False"
  by (simp add: matcher_defs)

text \<open>
  C1, as the claim has it, asks that the rule set \<open>["*.env"]\<close> does not match \<open>.env\<close>: the
  code answers true there.
\<close>

theorem isPathIgnored_dot_env_counterexample:
  "isPathIgnored RegExp_test [''*.env''] ''.env'' \<noteq> Inr False"
  by (simp add: matcher_defs)

section \<open>Properties of loading the ignore file\<close>

lemma dropWhile_fix: "xs = [] \<or> \<not> P (hd xs) \<Longrightarrow> dropWhile P xs = xs"
  by (cases xs) auto

lemma trim_props:
  "trim s = [] \<or> (\<not> is_space (hd (trim s)) \<and> \<not> is_space (last (trim s)))"
proof (cases "trim s = []")
  case True
  then show ?thesis by simp
next
  case False
  define t where "t = dropWhile is_space s"
  define u where "u = dropWhile is_space (rev t)"
  have tr: "trim s = rev u" by (simp add: trim_def t_def u_def)
  with False have u: "u \<noteq> []" by simp
  then have a: "\<not> is_space (hd u)" unfolding u_def by (rule hd_dropWhile)
  have t: "t \<noteq> []"
  proof
    assume "t = []"
    then have "u = []" by (simp add: u_def)
    with u show False by simp
  qed
  then have b: "\<not> is_space (hd t)" unfolding t_def by (rule hd_dropWhile)
  have "rev t = takeWhile is_space (rev t) @ u" by (simp add: u_def)
  then have "last (rev t) = last (takeWhile is_space (rev t) @ u)" by simp
  also have "\<dots> = last u" using u by simp
  finally have "last u = hd t" using t by (simp add: last_rev)
  with a b u show ?thesis by (simp add: tr hd_rev last_rev)
qed

lemma trim_idem: "trim (trim s) = trim s"
proof (cases "trim s = []")
  case True
  show ?thesis unfolding True by (simp add: trim_def)
next
  case False
  with trim_props [of s] have h: "\<not> is_space (hd (trim s))" and l: "\<not> is_space (last (trim s))" by auto
  have 1: "dropWhile is_space (trim s) = trim s" using h False by (simp add: dropWhile_fix)
  have 2: "dropWhile is_space (rev (trim s)) = rev (trim s)"
    using l False by (simp add: dropWhile_fix hd_rev)
  show ?thesis unfolding trim_def [of "trim s"] 1 2 by simp
qed

lemma split_on_nonempty: "split_on d s \<noteq> []"
  by (induction s) (auto split: list.splits)

lemma join_split: "join_with [d] (split_on d s) = s"
proof (induction s)
  case Nil
  then show ?case by simp
next
  case (Cons c s)
  obtain l ls where e: "split_on d s = l # ls" using split_on_nonempty [of d s] by (cases "split_on d s") auto
  with Cons show ?case by (cases ls) auto
qed

lemma split_no_sep: "l \<in> set (split_on d s) \<Longrightarrow> d \<notin> set l"
  by (induction s arbitrary: l) (auto split: if_splits list.splits)


lemma startsWith_hash: "startsWith l ''#'' \<longleftrightarrow> l \<noteq> [] \<and> hd l = CHR ''#''"
  by (cases l) (auto simp: startsWith_def)

lemma loadGitignore_read:
  "loadGitignore (Inr content) =
     (filter (\<lambda>l. l \<noteq> [] \<and> hd l \<noteq> CHR ''#'') (map trim (split_on newline content)), [])"
proof -
  have "filter (\<lambda>line. line \<noteq> [] \<and> \<not> startsWith line ''#'') xs =
        filter (\<lambda>l. l \<noteq> [] \<and> hd l \<noteq> CHR ''#'') xs" for xs
    by (rule filter_cong) (auto simp: startsWith_hash)
  then show ?thesis by (simp only: loadGitignore_def sum.case)
qed

text \<open>
  C7: loading the ignore file fails soft. A missing file (\<open>ENOENT\<close>) gives no rules and no
  warning; any other failure of the read gives no rules and one warning; a file that was read
  gives, with no warning, its lines trimmed, without the empty ones and without those that
  start with \<open>#\<close>; so every rule is non-empty, has no white space at either end and
  is no comment. The function has a result in every case.
\<close>

theorem loadGitignore_fails_soft:
  "(err_code e = Some ''ENOENT'' \<longrightarrow> loadGitignore (Inl e) = ([], [])) \<and>
   (err_code e \<noteq> Some ''ENOENT'' \<longrightarrow> loadGitignore (Inl e) = ([], [could_not_read e])) \<and>
   snd (loadGitignore (Inr content)) = [] \<and>
   fst (loadGitignore (Inr content)) =
     filter (\<lambda>l. l \<noteq> [] \<and> hd l \<noteq> CHR ''#'') (map trim (split_on newline content)) \<and>
   (\<forall>p \<in> set (fst (loadGitignore (Inr content))).
      p \<noteq> [] \<and> hd p \<noteq> CHR ''#'' \<and> trim p = p \<and> \<not> is_space (hd p) \<and> \<not> is_space (last p))"
proof -
  have absent: "err_code e = Some ''ENOENT'' \<longrightarrow> loadGitignore (Inl e) = ([], [])"
    by (simp add: loadGitignore_def)
  have unreadable: "err_code e \<noteq> Some ''ENOENT'' \<longrightarrow> loadGitignore (Inl e) = ([], [could_not_read e])"
    by (simp add: loadGitignore_def)
  have quiet: "snd (loadGitignore (Inr content)) = []"
    by (simp add: loadGitignore_read)
  have rules: "fst (loadGitignore (Inr content)) =
     filter (\<lambda>l. l \<noteq> [] \<and> hd l \<noteq> CHR ''#'') (map trim (split_on newline content))"
    by (simp add: loadGitignore_read)
  have each: "\<forall>p \<in> set (fst (loadGitignore (Inr content))).
      p \<noteq> [] \<and> hd p \<noteq> CHR ''#'' \<and> trim p = p \<and> \<not> is_space (hd p) \<and> \<not> is_space (last p)"
  proof
    fix p
    assume "p \<in> set (fst (loadGitignore (Inr content)))"
    then obtain l where p: "p = trim l" "p \<noteq> []" "hd p \<noteq> CHR ''#''"
      unfolding loadGitignore_read by auto
    with trim_props [of l] trim_idem [of l]
    show "p \<noteq> [] \<and> hd p \<noteq> CHR ''#'' \<and> trim p = p \<and> \<not> is_space (hd p) \<and> \<not> is_space (last p)"
      by simp
  qed
  show ?thesis by (intro conjI absent unreadable quiet rules each)
qed

text \<open>The three cases of C7 on a missing file, an unreadable file and a file of four lines.\<close>

theorem loadGitignore_fails_soft_witness:
  "loadGitignore (Inl (FsError (Some ''ENOENT'') ''no such file'')) = ([], []) \<and>
   loadGitignore (Inl (FsError (Some ''EACCES'') ''permission denied'')) =
     ([], [''Warning: Could not read .gitignore: permission denied'']) \<and>
   loadGitignore (Inr (''# secrets'' @ [newline] @ '' *.env  '' @ [newline] @ [newline] @ ''dist/''))
     = ([''*.env'', ''dist/''], [])"
proof -
  let ?text = "''# secrets'' @ [newline] @ '' *.env  '' @ [newline] @ [newline] @ ''dist/''"
  have absent: "loadGitignore (Inl (FsError (Some ''ENOENT'') ''no such file'')) = ([], [])"
    using loadGitignore_fails_soft [of "FsError (Some ''ENOENT'') ''no such file''" "[]", THEN conjunct1]
    by simp
  have unreadable: "loadGitignore (Inl (FsError (Some ''EACCES'') ''permission denied'')) =
     ([], [''Warning: Could not read .gitignore: permission denied''])"
    using loadGitignore_fails_soft [of "FsError (Some ''EACCES'') ''permission denied''" "[]",
        THEN conjunct2, THEN conjunct1]
    by (simp add: could_not_read_def)
  have "snd (loadGitignore (Inr ?text)) = []"
    by (rule loadGitignore_fails_soft [of "FsError (Some ''EACCES'') ''permission denied''" ?text, THEN conjunct2, THEN conjunct2, THEN conjunct1])
  moreover have "fst (loadGitignore (Inr ?text)) = [''*.env'', ''dist/'']"
    unfolding loadGitignore_fails_soft [of "FsError (Some ''EACCES'') ''permission denied''" ?text, THEN conjunct2, THEN conjunct2,
        THEN conjunct2, THEN conjunct1]
    by (simp add: trim_def is_space_def)
  ultimately have "loadGitignore (Inr ?text) = ([''*.env'', ''dist/''], [])"
    by (simp add: prod_eq_iff)
  with absent unreadable show ?thesis by (intro conjI)
qed

section \<open>Properties shared by the variants\<close>

lemma tally_frame:
  "choices (fst (tally re fs cs s)) = choices s \<and>
   index (fst (tally re fs cs s)) = index s \<and>
   gitignorePatterns (fst (tally re fs cs s)) = gitignorePatterns s \<and>
   selectedFilesCount (fst (tally re fs cs s)) = selectedFilesCount s \<and>
   select.more (fst (tally re fs cs s)) = select.more s"
proof (induction cs arbitrary: s)
  case Nil
  show ?case by simp
next
  case (Cons c cs)
  show ?case
  proof (cases "enabled c")
    case False
    then show ?thesis using Cons by simp
  next
    case True
    show ?thesis
    proof (cases "isPathIgnored re (gitignorePatterns s) (name c)")
      case (Inl e)
      with True show ?thesis by simp
    next
      case (Inr ignored)
      with True show ?thesis
        by (cases "fs (name c)"; cases ignored) (simp_all add: Cons)
    qed
  qed
qed


lemma recount_frame [simp]:
  "choices (fst (recount re fs s)) = choices s"
  "index (fst (recount re fs s)) = index s"
  "gitignorePatterns (fst (recount re fs s)) = gitignorePatterns s"
  "select.more (fst (recount re fs s)) = select.more s"
  by (simp_all add: recount_def tally_frame)

lemma toggleAll_frame [simp]:
  "index (fst (toggleAll re fs s)) = index s"
  "gitignorePatterns (fst (toggleAll re fs s)) = gitignorePatterns s"
  "select.more (fst (toggleAll re fs s)) = select.more s"
  by (simp_all add: toggleAll_def)

lemma toggleAll_choices:
  "choices (fst (toggleAll re fs s)) =
     map (\<lambda>c. c\<lparr>enabled := \<not> list_all enabled (choices s)\<rparr>) (choices s)"
  by (simp add: toggleAll_def)

section \<open>Properties of the grid selector\<close>

lemma update_frame [simp]:
  "choices (updateTerminalDimensions out s) = choices s"
  "index (updateTerminalDimensions out s) = index s"
  "currentColumn (updateTerminalDimensions out s) = currentColumn s"
  "visibleStart (updateTerminalDimensions out s) = visibleStart s"
  "totalCharacters (updateTerminalDimensions out s) = totalCharacters s"
  "selectedFilesCount (updateTerminalDimensions out s) = selectedFilesCount s"
  "selectedFilesGitignore (updateTerminalDimensions out s) = selectedFilesGitignore s"
  "gitignorePatterns (updateTerminalDimensions out s) = gitignorePatterns s"
  by (simp_all add: updateTerminalDimensions_def Let_def)

lemma update_activeColumns:
  "0 < activeColumns (updateTerminalDimensions out s)"
  "activeColumns (updateTerminalDimensions out s) \<le> 5"
  by (simp_all add: updateTerminalDimensions_def Let_def maxColumns_def)

lemma update_idem [simp]:
  "updateTerminalDimensions out (updateTerminalDimensions out s) = updateTerminalDimensions out s"
  by (simp add: updateTerminalDimensions_def Let_def)

lemma clamp_index_frame [simp]:
  "choices (clamp_index s) = choices s"
  "currentColumn (clamp_index s) = currentColumn s"
  "activeColumns (clamp_index s) = activeColumns s"
  "totalCharacters (clamp_index s) = totalCharacters s"
  "selectedFilesCount (clamp_index s) = selectedFilesCount s"
  "selectedFilesGitignore (clamp_index s) = selectedFilesGitignore s"
  "gitignorePatterns (clamp_index s) = gitignorePatterns s"
  by (simp_all add: clamp_index_def)

lemma scroll_to_cursor_frame [simp]:
  "choices (scroll_to_cursor s) = choices s"
  "index (scroll_to_cursor s) = index s"
  "currentColumn (scroll_to_cursor s) = currentColumn s"
  "activeColumns (scroll_to_cursor s) = activeColumns s"
  "totalCharacters (scroll_to_cursor s) = totalCharacters s"
  "selectedFilesCount (scroll_to_cursor s) = selectedFilesCount s"
  "selectedFilesGitignore (scroll_to_cursor s) = selectedFilesGitignore s"
  "gitignorePatterns (scroll_to_cursor s) = gitignorePatterns s"
  by (simp_all add: scroll_to_cursor_def split: jsnum.splits)

lemma clamp_scroll_frame [simp]:
  "choices (clamp_scroll s) = choices s"
  "index (clamp_scroll s) = index s"
  "currentColumn (clamp_scroll s) = currentColumn s"
  "activeColumns (clamp_scroll s) = activeColumns s"
  "totalCharacters (clamp_scroll s) = totalCharacters s"
  "selectedFilesCount (clamp_scroll s) = selectedFilesCount s"
  "selectedFilesGitignore (clamp_scroll s) = selectedFilesGitignore s"
  "gitignorePatterns (clamp_scroll s) = gitignorePatterns s"
  by (simp_all add: clamp_scroll_def Let_def)

lemma render_frame [simp]:
  "choices (fst (render re out s)) = choices s"
  "currentColumn (fst (render re out s)) = currentColumn s"
  "totalCharacters (fst (render re out s)) = totalCharacters s"
  "selectedFilesCount (fst (render re out s)) = selectedFilesCount s"
  "selectedFilesGitignore (fst (render re out s)) = selectedFilesGitignore s"
  "gitignorePatterns (fst (render re out s)) = gitignorePatterns s"
  by (simp_all add: render_def Let_def split: sum.splits)

lemma render_activeColumns [simp]:
  "activeColumns (fst (render re out s)) = activeColumns (updateTerminalDimensions out s)"
  by (simp add: render_def Let_def split: sum.splits)

lemma render_index:
  "index (fst (render re out s)) = index s \<or>
   index (fst (render re out s)) = index (clamp_index s)"
  by (simp add: render_def Let_def clamp_index_def split: sum.splits)


lemma itemsPerColumn_pos:
  "0 < activeColumns s \<Longrightarrow> choices s \<noteq> [] \<Longrightarrow> 0 < itemsPerColumn s"
  by (cases "choices s") (simp_all add: itemsPerColumn_def div_greater_zero_iff)

lemma itemsPerColumn_nonneg [simp]: "0 \<le> itemsPerColumn s"
  by (simp add: itemsPerColumn_def)

lemma js_mod_nonneg: "0 \<le> i \<Longrightarrow> 0 < b \<Longrightarrow> js_mod (Num i) b = Num (i mod b)"
  by (cases "i = 0") simp_all

lemma cursor_in_rangeD:
  "cursor_in_range s \<Longrightarrow> \<exists>i. index s = Num i \<and> 0 \<le> i \<and> i < int (length (choices s))"
  by (cases "index s") (auto simp: cursor_in_range_def)

lemma cursor_in_range_nonempty: "cursor_in_range s \<Longrightarrow> choices s \<noteq> []"
  by (cases "index s") (auto simp: cursor_in_range_def)

lemma cursor_in_range_cong:
  "index s' = index s \<Longrightarrow> length (choices s') = length (choices s) \<Longrightarrow>
   cursor_in_range s' = cursor_in_range s"
  by (simp add: cursor_in_range_def)

lemma clamp_index_in_range: "cursor_in_range s \<Longrightarrow> clamp_index s = s"
  by (cases "index s") (auto simp: cursor_in_range_def clamp_index_def)

lemma render_in_range:
  assumes "cursor_in_range s"
  shows "index (fst (render re out s)) = index s" and "cursor_in_range (fst (render re out s))"
proof -
  have "cursor_in_range (updateTerminalDimensions out s)"
    using assms by (simp add: cursor_in_range_def)
  then have "clamp_index (updateTerminalDimensions out s) = updateTerminalDimensions out s"
    by (rule clamp_index_in_range)
  then show "index (fst (render re out s)) = index s"
    by (simp add: render_def Let_def split: sum.splits)
  with assms show "cursor_in_range (fst (render re out s))"
    by (simp add: cursor_in_range_def)
qed

lemma move_down_in_range: "cursor_in_range s \<Longrightarrow> cursor_in_range (move_down s)"
  by (cases "index s") (auto simp: cursor_in_range_def move_down_def)

lemma move_up_in_range: "cursor_in_range s \<Longrightarrow> cursor_in_range (move_up s)"
proof -
  assume a: "cursor_in_range s"
  have "0 \<le> currentColumnStart s" by (simp add: currentColumnStart_def)
  with a show ?thesis
    by (cases "index s") (auto simp: cursor_in_range_def move_up_def)
qed

lemma move_to_column_in_range:
  assumes "cursor_in_range s" and "0 < activeColumns s"
  shows "cursor_in_range (move_to_column col s)"
proof -
  from assms(1) obtain i where i: "index s = Num i" "0 \<le> i" "i < int (length (choices s))"
    by (auto dest: cursor_in_rangeD)
  have pos: "0 < itemsPerColumn s"
    using assms cursor_in_range_nonempty [of s] by (simp add: itemsPerColumn_pos)
  then have row: "currentRow s = Num (i mod itemsPerColumn s)"
    using i js_mod_nonneg [of i "itemsPerColumn s"] by (simp add: currentRow_def del: js_mod.simps)
  have "0 \<le> int col * itemsPerColumn s + i mod itemsPerColumn s"
    using pos by simp
  moreover have "choices s \<noteq> []" using assms(1) by (rule cursor_in_range_nonempty)
  ultimately show ?thesis using i row
    by (simp add: move_to_column_def cursor_in_range_def Let_def min_def)
qed


lemma grid_more:
  fixes s s' :: grid
  assumes "select.more s' = select.more s"
  shows "activeColumns s' = activeColumns s" and "currentColumn s' = currentColumn s"
    and "visibleStart s' = visibleStart s" and "terminalWidth s' = terminalWidth s"
    and "terminalHeight s' = terminalHeight s" and "visibleRows s' = visibleRows s"
  using assms by (cases s; cases s'; simp)+

lemma then_render_in_range:
  assumes "cursor_in_range (fst r)"
  shows "cursor_in_range (fst (then_render re out r))"
  using assms by (cases "snd r") (simp_all add: then_render_def render_in_range)

lemma then_render_activeColumns:
  assumes "0 < activeColumns (fst r)"
  shows "0 < activeColumns (fst (then_render re out r))"
  using assms by (cases "snd r") (simp_all add: then_render_def update_activeColumns)

lemma toggle_at_in_range:
  assumes "toggle_at re fs s i = Some r"
  shows "index (fst r) = index s" and "length (choices (fst r)) = length (choices s)"
    and "select.more (fst r) = select.more s"
  using assms by (auto simp: toggle_at_def split: option.splits)

lemma keypress_in_range:
  assumes "cursor_in_range s" and "0 < activeColumns s"
  shows "cursor_in_range (fst (keypress re fs out k s)) \<and> 0 < activeColumns (fst (keypress re fs out k s))"
proof (cases k)
  case Down
  with assms show ?thesis
    by (simp add: keypress_def render_in_range move_down_in_range update_activeColumns)
next
  case Up
  with assms show ?thesis
    by (simp add: keypress_def render_in_range move_up_in_range update_activeColumns)
next
  case Right
  with assms show ?thesis
    by (simp add: keypress_def render_in_range move_to_column_in_range update_activeColumns)
next
  case Left
  with assms show ?thesis
    by (simp add: keypress_def render_in_range move_to_column_in_range update_activeColumns)
next
  case Space
  obtain i where i: "index s = Num i" using assms(1) by (auto dest: cursor_in_rangeD)
  show ?thesis
  proof (cases "toggle_at re fs s i")
    case None
    with Space i assms show ?thesis by (simp add: keypress_def)
  next
    case (Some r)
    from toggle_at_in_range [OF Some] assms
    have "cursor_in_range (fst r)" and "0 < activeColumns (fst r)"
      using grid_more(1) [of "fst r" s] by (simp_all add: cursor_in_range_def)
    then show ?thesis using Space i Some
      by (simp add: keypress_def then_render_in_range then_render_activeColumns)
  qed
next
  case LetterA
  have "cursor_in_range (fst (toggleAll re fs s))" and "0 < activeColumns (fst (toggleAll re fs s))"
    using assms grid_more(1) [of "fst (toggleAll re fs s)" s]
    by (simp_all add: cursor_in_range_def toggleAll_choices)
  then show ?thesis using LetterA
    by (simp add: keypress_def then_render_in_range then_render_activeColumns)
qed

lemma after_keys_in_range:
  "cursor_in_range s \<Longrightarrow> 0 < activeColumns s \<Longrightarrow> s' \<in> set (after_keys re fs keys s) \<Longrightarrow>
   cursor_in_range s'"
proof (induction keys arbitrary: s)
  case Nil
  then show ?case by simp
next
  case (Cons ev keys)
  obtain out k where ev: "ev = (out, k)" by (cases ev)
  let ?t = "fst (keypress re fs out k s)"
  have t: "cursor_in_range ?t" "0 < activeColumns ?t"
    using keypress_in_range [OF Cons.prems(1,2), of re fs out k] by simp_all
  from Cons.prems(3) have "s' = ?t \<or> s' \<in> set (after_keys re fs keys ?t)"
    by (simp add: ev)
  then show ?case
  proof
    assume "s' = ?t"
    with t show ?thesis by simp
  next
    assume "s' \<in> set (after_keys re fs keys ?t)"
    with t show ?thesis by (rule Cons.IH)
  qed
qed

section \<open>Properties of the scrolling two-column selector\<close>

lemma midPoint_bounds:
  "0 \<le> midPoint s" "midPoint s \<le> int (length (choices s))"
  "choices s \<noteq> [] \<Longrightarrow> 0 < midPoint s"
  by (cases "choices s"; simp add: midPoint_def)+

lemma update_pair_frame [simp]:
  "choices (updateTerminalDimensions_pair out s) = choices s"
  "index (updateTerminalDimensions_pair out s) = index s"
  "column (updateTerminalDimensions_pair out s) = column s"
  "visibleStart (updateTerminalDimensions_pair out s) = visibleStart s"
  "totalCharacters (updateTerminalDimensions_pair out s) = totalCharacters s"
  "selectedFilesCount (updateTerminalDimensions_pair out s) = selectedFilesCount s"
  "selectedFilesGitignore (updateTerminalDimensions_pair out s) = selectedFilesGitignore s"
  "gitignorePatterns (updateTerminalDimensions_pair out s) = gitignorePatterns s"
  by (simp_all add: updateTerminalDimensions_pair_def Let_def)

lemma adjust_left_frame [simp]:
  "choices (adjust_left s) = choices s"
  "column (adjust_left s) = column s"
  "totalCharacters (adjust_left s) = totalCharacters s"
  "selectedFilesCount (adjust_left s) = selectedFilesCount s"
  "selectedFilesGitignore (adjust_left s) = selectedFilesGitignore s"
  "gitignorePatterns (adjust_left s) = gitignorePatterns s"
  by (simp_all add: adjust_left_def Let_def)

lemma adjust_right_frame [simp]:
  "choices (adjust_right s) = choices s"
  "column (adjust_right s) = column s"
  "totalCharacters (adjust_right s) = totalCharacters s"
  "selectedFilesCount (adjust_right s) = selectedFilesCount s"
  "selectedFilesGitignore (adjust_right s) = selectedFilesGitignore s"
  "gitignorePatterns (adjust_right s) = gitignorePatterns s"
  by (simp_all add: adjust_right_def Let_def)

lemma clamp_scroll_pair_frame [simp]:
  "choices (clamp_scroll_pair s) = choices s"
  "index (clamp_scroll_pair s) = index s"
  "column (clamp_scroll_pair s) = column s"
  "totalCharacters (clamp_scroll_pair s) = totalCharacters s"
  "selectedFilesCount (clamp_scroll_pair s) = selectedFilesCount s"
  "selectedFilesGitignore (clamp_scroll_pair s) = selectedFilesGitignore s"
  "gitignorePatterns (clamp_scroll_pair s) = gitignorePatterns s"
  by (simp_all add: clamp_scroll_pair_def)

lemma render_pair_frame [simp]:
  "choices (fst (render_pair re out s)) = choices s"
  "column (fst (render_pair re out s)) = column s"
  "totalCharacters (fst (render_pair re out s)) = totalCharacters s"
  "selectedFilesCount (fst (render_pair re out s)) = selectedFilesCount s"
  "selectedFilesGitignore (fst (render_pair re out s)) = selectedFilesGitignore s"
  "gitignorePatterns (fst (render_pair re out s)) = gitignorePatterns s"
  by (simp_all add: render_pair_def Let_def split: sum.splits)

lemma adjust_left_in_range: "index_in_range s \<Longrightarrow> index_in_range (adjust_left s)"
  using midPoint_bounds [of s]
  by (cases "choices s = []") (auto simp: index_in_range_def adjust_left_def Let_def maxLeftRows_def)

lemma adjust_right_in_range: "index_in_range s \<Longrightarrow> index_in_range (adjust_right s)"
  using midPoint_bounds [of s]
  by (auto simp: index_in_range_def adjust_right_def Let_def maxRightRows_def)

lemma render_pair_in_range:
  "index_in_range s \<Longrightarrow> index_in_range (fst (render_pair re out s))"
proof -
  assume a: "index_in_range s"
  then have u: "index_in_range (updateTerminalDimensions_pair out s)"
    by (simp add: index_in_range_def)
  have "index_in_range (clamp_scroll_pair (adjust_left (updateTerminalDimensions_pair out s)))"
    using adjust_left_in_range [OF u] by (simp add: index_in_range_def)
  moreover have "index_in_range (clamp_scroll_pair (adjust_right (updateTerminalDimensions_pair out s)))"
    using adjust_right_in_range [OF u] by (simp add: index_in_range_def)
  ultimately show ?thesis using u
    by (simp add: render_pair_def Let_def split: sum.splits)
qed

lemma move_down_pair_in_range: "index_in_range s \<Longrightarrow> index_in_range (move_down_pair s)"
  using midPoint_bounds [of s]
  by (auto simp: index_in_range_def move_down_pair_def maxLeftRows_def)

lemma move_up_pair_in_range: "index_in_range s \<Longrightarrow> index_in_range (move_up_pair s)"
  using midPoint_bounds [of s]
  by (auto simp: index_in_range_def move_up_pair_def)

lemma switch_column_in_range: "index_in_range s \<Longrightarrow> index_in_range (switch_column c s)"
  using midPoint_bounds [of s]
  by (cases c; cases "choices s = []") (auto simp: index_in_range_def switch_column_def maxLeftRows_def)

lemma then_render_pair_in_range:
  "index_in_range (fst r) \<Longrightarrow> index_in_range (fst (then_render_pair re out r))"
  by (cases "snd r") (simp_all add: then_render_pair_def render_pair_in_range)

lemma keypress_pair_in_range:
  assumes "index_in_range s"
  shows "index_in_range (fst (keypress_pair re fs out k s))"
proof (cases k)
  case Space
  show ?thesis
  proof (cases "toggle_at re fs s (index s)")
    case None
    with Space assms show ?thesis by (simp add: keypress_pair_def)
  next
    case (Some r)
    from toggle_at_in_range [OF Some] assms have "index_in_range (fst r)"
      by (simp add: index_in_range_def)
    then show ?thesis using Space Some
      by (simp add: keypress_pair_def then_render_pair_in_range)
  qed
next
  case LetterA
  have "index_in_range (fst (toggleAll re fs s))"
    using assms by (simp add: index_in_range_def toggleAll_choices)
  then show ?thesis using LetterA
    by (simp add: keypress_pair_def then_render_pair_in_range)
qed (use assms in \<open>simp_all add: keypress_pair_def render_pair_in_range move_down_pair_in_range
      move_up_pair_in_range switch_column_in_range\<close>)

lemma after_keys_pair_in_range:
  "index_in_range s \<Longrightarrow> s' \<in> set (after_keys_pair re fs keys s) \<Longrightarrow> index_in_range s'"
proof (induction keys arbitrary: s)
  case Nil
  then show ?case by simp
next
  case (Cons ev keys)
  obtain out k where ev: "ev = (out, k)" by (cases ev)
  let ?t = "fst (keypress_pair re fs out k s)"
  have t: "index_in_range ?t"
    using Cons.prems(1) by (rule keypress_pair_in_range)
  from Cons.prems(2) have "s' = ?t \<or> s' \<in> set (after_keys_pair re fs keys ?t)"
    by (simp add: ev)
  then show ?case
  proof
    assume "s' = ?t"
    with t show ?thesis by simp
  next
    assume "s' \<in> set (after_keys_pair re fs keys ?t)"
    with t show ?thesis by (rule Cons.IH)
  qed
qed

section \<open>Properties of the two-column selector of \<open>minify-code.js\<close>\<close>

lemma render_plain_state [simp]: "fst (render_plain re out s) = s"
  by (simp add: render_plain_def split: sum.splits)

lemma flip_column_in_range: "index_in_range s \<Longrightarrow> index_in_range (flip_column s)"
  using midPoint_bounds [of s]
  by (auto simp: index_in_range_def flip_column_def Let_def)

lemma keypress_plain_in_range:
  assumes "index_in_range s" and "keypress_plain re fs out k s = Some r"
  shows "index_in_range (fst r)"
proof (cases k)
  case Space
  with assms(2) obtain r0 where r0: "toggle_at re fs s (index s) = Some r0"
    and r: "r = (case snd r0 of Some e \<Rightarrow> r0 | None \<Rightarrow> render_plain re out (fst r0))"
    by (auto simp: keypress_plain_def split: option.splits)
  from toggle_at_in_range [OF r0] assms(1) have "index_in_range (fst r0)"
    by (simp add: index_in_range_def)
  then show ?thesis using r by (cases "snd r0") simp_all
qed (use assms in \<open>auto simp: keypress_plain_def flip_column_in_range\<close>)

section \<open>Evaluating the grid selector\<close>

lemma render_state:
  "fst (render re out s) =
     (let s1 = updateTerminalDimensions out s
      in if terminalWidth s1 - 2 < 0 \<or> currentColumn s1 \<ge> length (grid_columns s1) then s1
         else clamp_scroll (scroll_to_cursor (clamp_index s1)))"
  by (simp add: render_def Let_def split: sum.splits)

lemmas grid_eval =
  render_state keypress_def move_down_def move_up_def move_to_column_def currentRow_def
  currentColumnStart_def itemsPerColumn_def clamp_index_def scroll_to_cursor_def clamp_scroll_def
  localIndex_def listHeight_def maxColumnHeight_def grid_columns_def slice_def
  updateTerminalDimensions_def constructed_def maxColumns_def Let_def

section \<open>The cursor stays on a choice\<close>

text \<open>
  C3: a cursor that is on a choice stays on a choice after every key of every sequence of
  keys: in the grid selector (whose number of columns has been computed, as the constructor
  does) and in the scrolling two-column selector, for the four arrows as for \<open>space\<close> and
  \<open>a\<close>; in the selector of \<open>minify-code.js\<close> after every key that the class handles itself.
\<close>

theorem cursor_stays_in_range:
  "(cursor_in_range s \<and> 0 < activeColumns s \<longrightarrow>
      (\<forall>s' \<in> set (after_keys re fs keys s). cursor_in_range s')) \<and>
   (index_in_range p \<longrightarrow> (\<forall>p' \<in> set (after_keys_pair re fs keys p). index_in_range p')) \<and>
   (index_in_range q \<and> keypress_plain re fs out k q = Some r \<longrightarrow> index_in_range (fst r))"
  using after_keys_in_range [of s _ re fs keys] after_keys_pair_in_range [of p _ re fs keys]
    keypress_plain_in_range [of q re fs out k r]
  by blast

theorem cursor_stays_in_range_witness:
  "list_all cursor_in_range
     (after_keys RegExp_test (\<lambda>p. None)
        [(wide, Down), (wide, Right), (wide, Down), (wide, Right), (wide, Up), (wide, Left)]
        (constructed wide [''a'', ''b'', ''c'']))"
proof -
  let ?s = "constructed wide [''a'', ''b'', ''c'']"
  let ?keys = "[(wide, Down), (wide, Right), (wide, Down), (wide, Right), (wide, Up), (wide, Left)]"
  have "cursor_in_range ?s \<and> 0 < activeColumns ?s"
    by (simp add: cursor_in_range_def constructed_def updateTerminalDimensions_def wide_def maxColumns_def)
  with cursor_stays_in_range [of ?s RegExp_test "\<lambda>p. None" ?keys]
  have "\<forall>s' \<in> set (after_keys RegExp_test (\<lambda>p. None) ?keys ?s). cursor_in_range s'"
    by blast
  then show ?thesis by (simp only: list_all_iff)
qed

section \<open>Moving right from the last row of the first column\<close>

text \<open>
  In the grid selector, with seven choices in two columns there are four items per column,
  the columns hold four and three choices, and \<open>right\<close> with the cursor on index 3 of the first
  column puts the cursor on index 6, the last choice, in the second column: the target is
  \<open>Math.min(newColumnStart + currentRow, choices.length - 1)\<close>.
\<close>

lemma grid_right_clamps_to_last_item:
  assumes "length (choices s) = 7" and "activeColumns s = 2"
    and "index s = Num 3" and "currentColumn s = 0"
  shows "itemsPerColumn s = 4" and "map length (grid_columns s) = [4, 3]"
    and "index (fst (keypress re fs out Right s)) = Num 6"
    and "currentColumn (fst (keypress re fs out Right s)) = 1"
proof -
  show ipc: "itemsPerColumn s = 4" using assms by (simp add: itemsPerColumn_def)
  show "map length (grid_columns s) = [4, 3]"
    using assms ipc by (simp add: grid_columns_def slice_def numeral_2_eq_2)
  let ?m = "move_to_column (currentColumn s + 1) s"
  have m: "index ?m = Num 6" "currentColumn ?m = 1" "length (choices ?m) = 7"
    using assms ipc by (simp_all add: move_to_column_def currentRow_def)
  then have "cursor_in_range ?m" by (simp add: cursor_in_range_def)
  then have "index (fst (render re out ?m)) = index ?m" by (rule render_in_range)
  with assms m show "index (fst (keypress re fs out Right s)) = Num 6"
    and "currentColumn (fst (keypress re fs out Right s)) = 1"
    by (simp_all add: keypress_def)
qed

text \<open>
  C5 fails on the code of \<open>minify-code.js\<close>. Its seven choices are split at \<open>midPoint = 4\<close>
  into columns of four and three, and \<open>right\<close> with the cursor on index 3, row 3 of the left
  column, finds no row 3 in the right column: \<open>this.column\<close> becomes the right column and the
  cursor stays on index 3, in the left one, where the claim has it on index 6. The handler
  has no branch for a right column that is shorter than the row of the cursor. The grid
  selector of \<open>build-structure.js\<close> clamps to the last choice and gives index 6 in column 1.
\<close>

theorem right_strands_cursor:
  "midPoint row3_plain = 4 \<and>
   map length [leftColumn row3_plain, rightColumn row3_plain] = [4, 3] \<and>
   index row3_plain = 3 \<and> column_plain row3_plain = OnLeft \<and>
   map_option (\<lambda>r. (column_plain (fst r), index (fst r), snd r))
     (keypress_plain RegExp_test (\<lambda>p. None) wide Right row3_plain) = Some (OnRight, 3, None) \<and>
   itemsPerColumn row3 = 4 \<and> index row3 = Num 3 \<and> currentColumn row3 = 0 \<and>
   index (fst (keypress RegExp_test (\<lambda>p. None) wide Right row3)) = Num 6 \<and>
   currentColumn (fst (keypress RegExp_test (\<lambda>p. None) wide Right row3)) = 1"
  by code_simp

section \<open>Select all\<close>

lemma then_render_choices [simp]: "choices (fst (then_render re out r)) = choices (fst r)"
  by (cases "snd r") (simp_all add: then_render_def)

lemma then_render_pair_choices [simp]: "choices (fst (then_render_pair re out r)) = choices (fst r)"
  by (cases "snd r") (simp_all add: then_render_pair_def)

lemma letter_a_choices:
  "choices (fst (keypress re fs out LetterA s)) =
     map (\<lambda>c. c\<lparr>enabled := \<not> list_all enabled (choices s)\<rparr>) (choices s)"
  "choices (fst (keypress_pair re fs out LetterA p)) =
     map (\<lambda>c. c\<lparr>enabled := \<not> list_all enabled (choices p)\<rparr>) (choices p)"
  by (simp_all add: keypress_def keypress_pair_def toggleAll_choices)

lemma all_set_to:
  "list_all enabled (map (\<lambda>c. c\<lparr>enabled := b\<rparr>) cs) \<longleftrightarrow> cs = [] \<or> b"
  "list_all (\<lambda>c. \<not> enabled c) (map (\<lambda>c. c\<lparr>enabled := b\<rparr>) cs) \<longleftrightarrow> cs = [] \<or> \<not> b"
  by (induction cs) auto

text \<open>
  C2: the key \<open>a\<close> gives every choice the flag "not all choices were enabled" and changes no
  name; so from a prompt in which some choice is not enabled, the first \<open>a\<close> enables all
  and the second disables all, whatever the flags were. In the grid selector (\<open>s\<close>) and in
  the scrolling two-column selector (\<open>p\<close>).
\<close>

theorem select_all_toggles:
  "(\<forall>c \<in> set (choices (fst (keypress re fs out LetterA s))).
      enabled c = (\<not> list_all enabled (choices s))) \<and>
   map name (choices (fst (keypress re fs out LetterA s))) = map name (choices s) \<and>
   (\<not> list_all enabled (choices s) \<longrightarrow>
      list_all enabled (choices (fst (keypress re fs out LetterA s))) \<and>
      list_all (\<lambda>c. \<not> enabled c)
        (choices (fst (keypress re fs out' LetterA (fst (keypress re fs out LetterA s)))))) \<and>
   (\<forall>c \<in> set (choices (fst (keypress_pair re fs out LetterA p))).
      enabled c = (\<not> list_all enabled (choices p))) \<and>
   map name (choices (fst (keypress_pair re fs out LetterA p))) = map name (choices p) \<and>
   (\<not> list_all enabled (choices p) \<longrightarrow>
      list_all enabled (choices (fst (keypress_pair re fs out LetterA p))) \<and>
      list_all (\<lambda>c. \<not> enabled c)
        (choices (fst (keypress_pair re fs out' LetterA (fst (keypress_pair re fs out LetterA p))))))"
proof -
  have flags: "\<forall>c \<in> set (map (\<lambda>c. c\<lparr>enabled := b\<rparr>) cs). enabled c = b" for b and cs :: "choice list"
    by simp
  have names: "map name (map (\<lambda>c. c\<lparr>enabled := b\<rparr>) cs) = map name cs" for b and cs :: "choice list"
    by simp
  have twice: "\<not> list_all enabled cs \<longrightarrow>
      list_all enabled (map (\<lambda>c. c\<lparr>enabled := \<not> list_all enabled cs\<rparr>) cs) \<and>
      list_all (\<lambda>c. \<not> enabled c)
        (map (\<lambda>c. c\<lparr>enabled := \<not> list_all enabled (map (\<lambda>c. c\<lparr>enabled := \<not> list_all enabled cs\<rparr>) cs)\<rparr>)
           (map (\<lambda>c. c\<lparr>enabled := \<not> list_all enabled cs\<rparr>) cs))"
    for cs :: "choice list"
    by (simp only: all_set_to) auto
  show ?thesis
    unfolding letter_a_choices
    by (intro conjI flags names twice)
qed


theorem select_all_toggles_witness:
  "map enabled (choices mixed) = [True, False, False] \<and>
   list_all enabled (choices (fst (keypress RegExp_test (\<lambda>p. None) wide LetterA mixed))) \<and>
   list_all (\<lambda>c. \<not> enabled c)
     (choices (fst (keypress RegExp_test (\<lambda>p. None) wide LetterA
        (fst (keypress RegExp_test (\<lambda>p. None) wide LetterA mixed)))))"
proof -
  have m: "map enabled (choices mixed) = [True, False, False]" by code_simp
  have "\<not> list_all enabled (choices mixed)" by code_simp
  with select_all_toggles [of RegExp_test "\<lambda>p. None" wide mixed wide] m show ?thesis by blast
qed

section \<open>Toggling twice\<close>

lemma tally_stats_cong:
  fixes s :: "('n, 'a) select_scheme" and s' :: "('m, 'b) select_scheme"
  assumes "gitignorePatterns s' = gitignorePatterns s"
    and "totalCharacters s' = totalCharacters s"
    and "selectedFilesGitignore s' = selectedFilesGitignore s"
  shows "totalCharacters (fst (tally re fs cs s')) = totalCharacters (fst (tally re fs cs s)) \<and>
         selectedFilesGitignore (fst (tally re fs cs s')) = selectedFilesGitignore (fst (tally re fs cs s)) \<and>
         snd (tally re fs cs s') = snd (tally re fs cs s)"
  using assms
proof (induction cs arbitrary: s s')
  case Nil
  then show ?case by simp
next
  case (Cons c cs)
  show ?case
  proof (cases "enabled c")
    case False
    then show ?thesis using Cons.IH [OF Cons.prems] by simp
  next
    case True
    show ?thesis
    proof (cases "isPathIgnored re (gitignorePatterns s) (name c)")
      case (Inl e)
      with True Cons.prems show ?thesis by simp
    next
      case (Inr ignored)
      let ?f = "\<lambda>x :: ('n, 'a) select_scheme.
        (case fs (name c) of
           Some content \<Rightarrow> x\<lparr>totalCharacters := totalCharacters x + int (length content)\<rparr>
         | None \<Rightarrow> x)"
      let ?f' = "\<lambda>x :: ('m, 'b) select_scheme.
        (case fs (name c) of
           Some content \<Rightarrow> x\<lparr>totalCharacters := totalCharacters x + int (length content)\<rparr>
         | None \<Rightarrow> x)"
      let ?g = "\<lambda>x :: ('n, 'a) select_scheme. if ignored then x\<lparr>selectedFilesGitignore := name c\<rparr> else x"
      let ?g' = "\<lambda>x :: ('m, 'b) select_scheme. if ignored then x\<lparr>selectedFilesGitignore := name c\<rparr> else x"
      have "gitignorePatterns (?f' (?g' s')) = gitignorePatterns (?f (?g s))"
        and "totalCharacters (?f' (?g' s')) = totalCharacters (?f (?g s))"
        and "selectedFilesGitignore (?f' (?g' s')) = selectedFilesGitignore (?f (?g s))"
        using Cons.prems by (cases "fs (name c)"; simp)+
      from Cons.IH [OF this] True Inr Cons.prems(1) show ?thesis by (simp add: Let_def)
    qed
  qed
qed

lemma recount_stats_cong:
  fixes s :: "('n, 'a) select_scheme" and s' :: "('m, 'b) select_scheme"
  assumes "choices s' = choices s" and "gitignorePatterns s' = gitignorePatterns s"
  shows "totalCharacters (fst (recount re fs s')) = totalCharacters (fst (recount re fs s))"
    and "selectedFilesCount (fst (recount re fs s')) = selectedFilesCount (fst (recount re fs s))"
    and "selectedFilesGitignore (fst (recount re fs s')) = selectedFilesGitignore (fst (recount re fs s))"
    and "snd (recount re fs s') = snd (recount re fs s)"
proof -
  let ?r = "\<lambda>x :: ('n, 'a) select_scheme. x\<lparr>totalCharacters := 0,
          selectedFilesCount := int (length (filter enabled (choices x))),
          selectedFilesGitignore := []\<rparr>"
  let ?r' = "\<lambda>x :: ('m, 'b) select_scheme. x\<lparr>totalCharacters := 0,
          selectedFilesCount := int (length (filter enabled (choices x))),
          selectedFilesGitignore := []\<rparr>"
  have c: "totalCharacters (fst (tally re fs (choices s) (?r' s'))) = totalCharacters (fst (tally re fs (choices s) (?r s))) \<and>
         selectedFilesGitignore (fst (tally re fs (choices s) (?r' s'))) = selectedFilesGitignore (fst (tally re fs (choices s) (?r s))) \<and>
         snd (tally re fs (choices s) (?r' s')) = snd (tally re fs (choices s) (?r s))"
    by (rule tally_stats_cong) (simp_all add: assms)
  then show "totalCharacters (fst (recount re fs s')) = totalCharacters (fst (recount re fs s))"
    and "selectedFilesGitignore (fst (recount re fs s')) = selectedFilesGitignore (fst (recount re fs s))"
    and "snd (recount re fs s') = snd (recount re fs s)"
    by (simp_all add: recount_def assms)
  show "selectedFilesCount (fst (recount re fs s')) = selectedFilesCount (fst (recount re fs s))"
    by (simp add: recount_def assms tally_frame)
qed

lemma toggled_twice [simp]: "toggled (toggled c) = c"
  by (simp add: toggled_def)



lemma toggle_at_Some:
  assumes "element (choices s) i = Some c"
  shows "toggle_at re fs s i = Some (recount re fs (s\<lparr>choices := (choices s)[nat i := toggled c]\<rparr>))"
  using assms by (simp add: toggle_at_def)



lemma then_render_stats [simp]:
  "totalCharacters (fst (then_render re out r)) = totalCharacters (fst r)"
  "selectedFilesCount (fst (then_render re out r)) = selectedFilesCount (fst r)"
  "selectedFilesGitignore (fst (then_render re out r)) = selectedFilesGitignore (fst r)"
  "gitignorePatterns (fst (then_render re out r)) = gitignorePatterns (fst r)"
  by (cases "snd r"; simp add: then_render_def)+

lemma then_render_pair_stats [simp]:
  "totalCharacters (fst (then_render_pair re out r)) = totalCharacters (fst r)"
  "selectedFilesCount (fst (then_render_pair re out r)) = selectedFilesCount (fst r)"
  "selectedFilesGitignore (fst (then_render_pair re out r)) = selectedFilesGitignore (fst r)"
  "gitignorePatterns (fst (then_render_pair re out r)) = gitignorePatterns (fst r)"
  by (cases "snd r"; simp add: then_render_pair_def)+







subsection \<open>When the statistics are up to date\<close>

lemma tally_shape:
  "\<exists>t g. fst (tally re fs cs s) = s\<lparr>totalCharacters := t, selectedFilesGitignore := g\<rparr>"
proof (induction cs arbitrary: s)
  case Nil
  have "fst (tally re fs [] s) =
      s\<lparr>totalCharacters := totalCharacters s, selectedFilesGitignore := selectedFilesGitignore s\<rparr>"
    by simp
  then show ?case by blast
next
  case (Cons c cs)
  show ?case
  proof (cases "enabled c")
    case False
    then show ?thesis using Cons.IH [of s] by simp
  next
    case True
    show ?thesis
    proof (cases "isPathIgnored re (gitignorePatterns s) (name c)")
      case (Inl e)
      have "fst (tally re fs (c # cs) s) =
          s\<lparr>totalCharacters := totalCharacters s, selectedFilesGitignore := selectedFilesGitignore s\<rparr>"
        using True Inl by simp
      then show ?thesis by blast
    next
      case (Inr ignored)
      define s2 where "s2 = (case fs (name c) of
           Some content \<Rightarrow>
             (if ignored then s\<lparr>selectedFilesGitignore := name c\<rparr> else s)
               \<lparr>totalCharacters := totalCharacters (if ignored then s\<lparr>selectedFilesGitignore := name c\<rparr> else s)
                  + int (length content)\<rparr>
         | None \<Rightarrow> (if ignored then s\<lparr>selectedFilesGitignore := name c\<rparr> else s))"
      have step: "fst (tally re fs (c # cs) s) = fst (tally re fs cs s2)"
        using True Inr by (simp add: s2_def Let_def)
      obtain t0 g0 where s2: "s2 = s\<lparr>totalCharacters := t0, selectedFilesGitignore := g0\<rparr>"
      proof -
        have "s2 = s\<lparr>totalCharacters := totalCharacters s2, selectedFilesGitignore := selectedFilesGitignore s2\<rparr>"
          by (cases "fs (name c)"; cases ignored; simp add: s2_def)
        then show ?thesis using that by blast
      qed
      from Cons.IH [of s2] obtain t g
        where "fst (tally re fs cs s2) = s2\<lparr>totalCharacters := t, selectedFilesGitignore := g\<rparr>"
        by blast
      then have "fst (tally re fs (c # cs) s) = s2\<lparr>totalCharacters := t, selectedFilesGitignore := g\<rparr>"
        by (simp only: step)
      also have "\<dots> = s\<lparr>totalCharacters := t, selectedFilesGitignore := g\<rparr>"
        by (subst s2) simp
      finally show ?thesis by blast
    qed
  qed
qed

lemma stats_currentI:
  assumes "totalCharacters (fst (recount re fs s)) = totalCharacters s"
    and "selectedFilesCount (fst (recount re fs s)) = selectedFilesCount s"
    and "selectedFilesGitignore (fst (recount re fs s)) = selectedFilesGitignore s"
  shows "stats_current re fs s"
proof -
  let ?r = "s\<lparr>totalCharacters := 0,
          selectedFilesCount := int (length (filter enabled (choices s))),
          selectedFilesGitignore := []\<rparr>"
  obtain t g where tg: "fst (tally re fs (choices s) ?r) = ?r\<lparr>totalCharacters := t, selectedFilesGitignore := g\<rparr>"
    using tally_shape [of re fs "choices s" ?r] by blast
  then have shape: "fst (recount re fs s) = s\<lparr>totalCharacters := t,
          selectedFilesCount := int (length (filter enabled (choices s))),
          selectedFilesGitignore := g\<rparr>"
    by (simp add: recount_def)
  with assms have "t = totalCharacters s" "int (length (filter enabled (choices s))) = selectedFilesCount s"
    "g = selectedFilesGitignore s"
    by simp_all
  with shape show ?thesis by (simp add: stats_current_def)
qed

lemma stats_current_transfer:
  fixes s :: "('n, 'a) select_scheme" and s' :: "('m, 'b) select_scheme"
  assumes "stats_current re fs s"
    and "choices s' = choices s" and "gitignorePatterns s' = gitignorePatterns s"
    and "totalCharacters s' = totalCharacters s" and "selectedFilesCount s' = selectedFilesCount s"
    and "selectedFilesGitignore s' = selectedFilesGitignore s"
  shows "stats_current re fs s'"
proof (rule stats_currentI)
  from assms(1) have u: "fst (recount re fs s) = s" by (simp add: stats_current_def)
  show "totalCharacters (fst (recount re fs s')) = totalCharacters s'"
    using recount_stats_cong(1) [OF assms(2,3), of re fs] u assms(4) by simp
  show "selectedFilesCount (fst (recount re fs s')) = selectedFilesCount s'"
    using recount_stats_cong(2) [OF assms(2,3), of re fs] u assms(5) by simp
  show "selectedFilesGitignore (fst (recount re fs s')) = selectedFilesGitignore s'"
    using recount_stats_cong(3) [OF assms(2,3), of re fs] u assms(6) by simp
qed

lemma stats_current_recount: "stats_current re fs (fst (recount re fs s))"
proof (rule stats_currentI)
  have same: "choices (fst (recount re fs s)) = choices s"
    "gitignorePatterns (fst (recount re fs s)) = gitignorePatterns s"
    by simp_all
  show "totalCharacters (fst (recount re fs (fst (recount re fs s)))) = totalCharacters (fst (recount re fs s))"
    by (rule recount_stats_cong(1) [OF same])
  show "selectedFilesCount (fst (recount re fs (fst (recount re fs s)))) = selectedFilesCount (fst (recount re fs s))"
    by (rule recount_stats_cong(2) [OF same])
  show "selectedFilesGitignore (fst (recount re fs (fst (recount re fs s)))) = selectedFilesGitignore (fst (recount re fs s))"
    by (rule recount_stats_cong(3) [OF same])
qed

lemma tally_none_enabled: "\<forall>c \<in> set cs. \<not> enabled c \<Longrightarrow> tally re fs cs s = (s, None)"
  by (induction cs) simp_all

lemma stats_current_constructed:
  "stats_current re fs ((constructed out filePaths)\<lparr>gitignorePatterns := patterns\<rparr>)"
  by (simp add: stats_current_def recount_def constructed_def updateTerminalDimensions_def
      tally_none_enabled Let_def)

lemma keypress_stats_current:
  assumes "stats_current re fs s"
  shows "stats_current re fs (fst (keypress re fs out k s))"
proof (cases k)
  case Down
  show ?thesis unfolding Down keypress_def key.case
    by (rule stats_current_transfer [OF assms]) (simp_all add: move_down_def)
next
  case Up
  show ?thesis unfolding Up keypress_def key.case
    by (rule stats_current_transfer [OF assms]) (simp_all add: move_up_def)
next
  case Right
  show ?thesis unfolding Right keypress_def key.case
    by (rule stats_current_transfer [OF assms]) (simp_all add: move_to_column_def Let_def)
next
  case Left
  show ?thesis unfolding Left keypress_def key.case
    by (rule stats_current_transfer [OF assms]) (simp_all add: move_to_column_def Let_def)
next
  case Space
  show ?thesis
  proof (cases "index s")
    case NaN
    with Space assms show ?thesis by (simp add: keypress_def)
  next
    case (Num i)
    show ?thesis
    proof (cases "toggle_at re fs s i")
      case None
      with Space Num assms show ?thesis by (simp add: keypress_def)
    next
      case (Some r)
      then obtain s' where "r = recount re fs s'" by (auto simp: toggle_at_def split: option.splits)
      then have "stats_current re fs (fst r)" by (simp add: stats_current_recount)
      then have "stats_current re fs (fst (then_render re out r))"
        by (rule stats_current_transfer) simp_all
      with Space Num Some show ?thesis by (simp add: keypress_def)
    qed
  qed
next
  case LetterA
  have "stats_current re fs (fst (toggleAll re fs s))"
    by (simp add: toggleAll_def stats_current_recount)
  then have "stats_current re fs (fst (then_render re out (toggleAll re fs s)))"
    by (rule stats_current_transfer) simp_all
  with LetterA show ?thesis by (simp add: keypress_def)
qed

lemma after_keys_stats_current:
  "stats_current re fs s \<Longrightarrow> s' \<in> set (after_keys re fs keys s) \<Longrightarrow> stats_current re fs s'"
proof (induction keys arbitrary: s)
  case Nil
  then show ?case by simp
next
  case (Cons ev keys)
  obtain out k where ev: "ev = (out, k)" by (cases ev)
  let ?t = "fst (keypress re fs out k s)"
  have t: "stats_current re fs ?t" using Cons.prems(1) by (rule keypress_stats_current)
  from Cons.prems(2) have "s' = ?t \<or> s' \<in> set (after_keys re fs keys ?t)" by (simp add: ev)
  then show ?case
  proof
    assume "s' = ?t"
    with t show ?thesis by simp
  next
    assume "s' \<in> set (after_keys re fs keys ?t)"
    with t show ?thesis by (rule Cons.IH)
  qed
qed

lemma keypress_pair_stats_current:
  assumes "stats_current re fs p"
  shows "stats_current re fs (fst (keypress_pair re fs out k p))"
proof (cases k)
  case Down
  show ?thesis unfolding Down keypress_pair_def key.case
    by (rule stats_current_transfer [OF assms]) (simp_all add: move_down_pair_def)
next
  case Up
  show ?thesis unfolding Up keypress_pair_def key.case
    by (rule stats_current_transfer [OF assms]) (simp_all add: move_up_pair_def)
next
  case Right
  show ?thesis unfolding Right keypress_pair_def key.case
    by (rule stats_current_transfer [OF assms]) (simp_all add: switch_column_def)
next
  case Left
  show ?thesis unfolding Left keypress_pair_def key.case
    by (rule stats_current_transfer [OF assms]) (simp_all add: switch_column_def)
next
  case Space
  show ?thesis
  proof (cases "toggle_at re fs p (index p)")
    case None
    with Space assms show ?thesis by (simp add: keypress_pair_def)
  next
    case (Some r)
    then obtain p' where "r = recount re fs p'" by (auto simp: toggle_at_def split: option.splits)
    then have "stats_current re fs (fst r)" by (simp add: stats_current_recount)
    then have "stats_current re fs (fst (then_render_pair re out r))"
      by (rule stats_current_transfer) simp_all
    with Space Some show ?thesis by (simp add: keypress_pair_def)
  qed
next
  case LetterA
  have "stats_current re fs (fst (toggleAll re fs p))"
    by (simp add: toggleAll_def stats_current_recount)
  then have "stats_current re fs (fst (then_render_pair re out (toggleAll re fs p)))"
    by (rule stats_current_transfer) simp_all
  with LetterA show ?thesis by (simp add: keypress_pair_def)
qed





section \<open>Resizing the terminal\<close>

lemma clamp_index_not_past_end: "\<not> past_end (clamp_index s)"
  by (cases "index s") (auto simp: past_end_def clamp_index_def)

lemma clamp_index_id: "\<not> past_end s \<Longrightarrow> clamp_index s = s"
  by (simp add: past_end_def clamp_index_def)

lemma past_end_cong:
  "index s' = index s \<Longrightarrow> length (choices s') = length (choices s) \<Longrightarrow> past_end s' = past_end s"
  by (simp add: past_end_def)

lemma render_keeps_index:
  assumes "\<not> past_end s"
  shows "index (fst (render re out s)) = index s"
proof -
  have "\<not> past_end (updateTerminalDimensions out s)"
    using assms by (simp add: past_end_def)
  then have "clamp_index (updateTerminalDimensions out s) = updateTerminalDimensions out s"
    by (rule clamp_index_id)
  then show ?thesis by (simp add: render_state Let_def)
qed

lemma render_not_past_end: "\<not> past_end s \<Longrightarrow> \<not> past_end (fst (render re out s))"
  using render_keeps_index [of s re out] by (simp add: past_end_def)

lemma first_frame_not_past_end:
  assumes "render re out s = (s', None)"
  shows "\<not> past_end s'"
proof -
  from assms have "s' = clamp_scroll (scroll_to_cursor (clamp_index (updateTerminalDimensions out s)))"
    by (auto simp: render_def Let_def split: if_splits sum.splits)
  then have "past_end s' = past_end (clamp_index (updateTerminalDimensions out s))"
    by (simp add: past_end_def)
  then show ?thesis by (simp add: clamp_index_not_past_end)
qed

lemma move_not_past_end:
  "\<not> past_end s \<Longrightarrow> \<not> past_end (move_down s)"
  "\<not> past_end s \<Longrightarrow> \<not> past_end (move_up s)"
  "\<not> past_end (move_to_column col s)"
proof -
  show "\<not> past_end s \<Longrightarrow> \<not> past_end (move_down s)"
    by (cases "index s") (auto simp: past_end_def move_down_def)
  show "\<not> past_end s \<Longrightarrow> \<not> past_end (move_up s)"
    by (cases "index s") (auto simp: past_end_def move_up_def)
  show "\<not> past_end (move_to_column col s)"
    by (cases "currentRow s") (auto simp: past_end_def move_to_column_def Let_def)
qed

lemma then_render_not_past_end:
  "\<not> past_end (fst r) \<Longrightarrow> \<not> past_end (fst (then_render re out r))"
  by (cases "snd r") (simp_all add: then_render_def render_not_past_end)

lemma keypress_not_past_end:
  assumes "\<not> past_end s"
  shows "\<not> past_end (fst (keypress re fs out k s))"
proof (cases k)
  case Space
  show ?thesis
  proof (cases "index s")
    case NaN
    with Space assms show ?thesis by (simp add: keypress_def)
  next
    case (Num i)
    show ?thesis
    proof (cases "toggle_at re fs s i")
      case None
      with Space Num assms show ?thesis by (simp add: keypress_def)
    next
      case (Some r)
      from toggle_at_in_range [OF Some] assms have "\<not> past_end (fst r)"
        by (simp add: past_end_def)
      then show ?thesis using Space Num Some
        by (simp add: keypress_def then_render_not_past_end)
    qed
  qed
next
  case LetterA
  have "\<not> past_end (fst (toggleAll re fs s))"
    using assms by (simp add: past_end_def toggleAll_choices)
  then show ?thesis using LetterA by (simp add: keypress_def then_render_not_past_end)
qed (use assms in \<open>simp_all add: keypress_def render_not_past_end move_not_past_end\<close>)

lemma step_not_past_end:
  assumes "\<not> past_end s"
  shows "\<not> past_end (fst (step re fs out ev s))"
proof (cases ev)
  case (Key k)
  with assms show ?thesis by (simp add: step_def keypress_not_past_end)
next
  case Resized
  have "\<not> past_end (updateTerminalDimensions out s)" using assms by (simp add: past_end_def)
  then show ?thesis using Resized by (simp add: step_def resize_def render_not_past_end)
next
  case (Loaded r)
  with assms show ?thesis by (simp add: step_def past_end_def)
qed

lemma run_not_past_end: "\<not> past_end s \<Longrightarrow> \<not> past_end (run re fs evs s)"
proof (induction evs arbitrary: s)
  case Nil
  then show ?case by simp
next
  case (Cons ev evs)
  obtain out e where ev: "ev = (out, e)" by (cases ev)
  have "\<not> past_end (fst (step re fs out e s))" using Cons.prems by (rule step_not_past_end)
  then have "\<not> past_end (run re fs evs (fst (step re fs out e s)))" by (rule Cons.IH)
  then show ?case by (simp add: ev)
qed

lemma resize_frame:
  assumes "\<not> past_end s"
  shows "index (fst (resize re out s)) = index s"
    and "currentColumn (fst (resize re out s)) = currentColumn s"
    and "choices (fst (resize re out s)) = choices s"
proof -
  have "\<not> past_end (updateTerminalDimensions out s)" using assms by (simp add: past_end_def)
  then show "index (fst (resize re out s)) = index s"
    by (simp add: resize_def render_keeps_index)
  show "currentColumn (fst (resize re out s)) = currentColumn s"
    and "choices (fst (resize re out s)) = choices s"
    by (simp_all add: resize_def)
qed

text \<open>
  C9: in every prompt that a sequence of keys, resizes and loads of the ignore file reaches
  from the first frame (or, when there is a file to choose from, from the constructor), a resize
  leaves the cursor, the active column and the choices with their flags as they are.
\<close>

theorem resize_keeps_selection:
  "render re out0 (constructed out1 filePaths) = (s0, None) \<or>
   (filePaths \<noteq> [] \<and> s0 = constructed out1 filePaths) \<longrightarrow>
     index (fst (resize re out (run re fs evs s0))) = index (run re fs evs s0) \<and>
     currentColumn (fst (resize re out (run re fs evs s0))) = currentColumn (run re fs evs s0) \<and>
     choices (fst (resize re out (run re fs evs s0))) = choices (run re fs evs s0)"
proof
  assume "render re out0 (constructed out1 filePaths) = (s0, None) \<or>
   (filePaths \<noteq> [] \<and> s0 = constructed out1 filePaths)"
  then have "\<not> past_end s0"
  proof
    assume "render re out0 (constructed out1 filePaths) = (s0, None)"
    then show ?thesis by (rule first_frame_not_past_end)
  next
    assume "filePaths \<noteq> [] \<and> s0 = constructed out1 filePaths"
    then show ?thesis by (cases filePaths) (simp_all add: past_end_def constructed_def)
  qed
  then have "\<not> past_end (run re fs evs s0)" by (rule run_not_past_end)
  then show "index (fst (resize re out (run re fs evs s0))) = index (run re fs evs s0) \<and>
     currentColumn (fst (resize re out (run re fs evs s0))) = currentColumn (run re fs evs s0) \<and>
     choices (fst (resize re out (run re fs evs s0))) = choices (run re fs evs s0)"
    by (simp add: resize_frame)
qed


text \<open>
  On the sample prompt, whose cursor is on index 5 in the second column, the terminal shrinks
  to one column: cursor, column and flags stay (and this \<open>render\<close> throws, since
  \<open>columns[1]\<close> no longer exists).
\<close>

theorem resize_keeps_selection_witness:
  "index (fst (resize RegExp_test narrow browsing)) = Num 5 \<and>
   currentColumn (fst (resize RegExp_test narrow browsing)) = 1 \<and>
   map enabled (choices (fst (resize RegExp_test narrow browsing))) = replicate 7 False \<and>
   snd (resize RegExp_test narrow browsing) = Some TypeError"
proof -
  let ?first = "render RegExp_test wide (constructed wide seven)"
  have "snd ?first = None" by code_simp
  then have "?first = (fst ?first, None)" by (simp add: prod_eq_iff)
  then have "index (fst (resize RegExp_test narrow browsing)) = index browsing \<and>
     currentColumn (fst (resize RegExp_test narrow browsing)) = currentColumn browsing \<and>
     choices (fst (resize RegExp_test narrow browsing)) = choices browsing"
    unfolding browsing_def
    using resize_keeps_selection [of RegExp_test wide wide seven "fst ?first" narrow project
        "[(wide, Key Right), (wide, Key Down)]"]
    by blast
  moreover have "index browsing = Num 5 \<and> currentColumn browsing = 1 \<and>
      map enabled (choices browsing) = replicate 7 False"
    by code_simp
  moreover have "snd (resize RegExp_test narrow browsing) = Some TypeError"
    by code_simp
  ultimately show ?thesis by simp
qed

section \<open>Where the active column is the column of the cursor\<close>

lemma div_bounds:
  fixes x b q :: int
  assumes "0 < b"
  shows "x div b = q \<longleftrightarrow> q * b \<le> x \<and> x < q * b + b"
proof
  assume "x div b = q"
  with div_mult_mod_eq [of x b] pos_mod_sign [OF assms, of x] pos_mod_bound [OF assms, of x]
  show "q * b \<le> x \<and> x < q * b + b" by auto
next
  assume a: "q * b \<le> x \<and> x < q * b + b"
  define r where "r = x - q * b"
  with a have r: "0 \<le> r" "r < b" by simp_all
  have "x = r + q * b" by (simp add: r_def)
  then have "x div b = (r + q * b) div b" by simp
  also have "\<dots> = q + r div b" using assms by simp
  also have "r div b = 0" using r by simp
  finally show "x div b = q" by simp
qed

lemma column_consistentD:
  assumes "column_consistent s" and "index s = Num i" and "0 < itemsPerColumn s"
  shows "int (currentColumn s) * itemsPerColumn s \<le> i"
    and "i < int (currentColumn s) * itemsPerColumn s + itemsPerColumn s"
  using assms div_bounds [of "itemsPerColumn s" i "int (currentColumn s)"]
  by (simp_all add: column_consistent_def)

lemma column_consistentI:
  assumes "index s = Num i" and "0 < itemsPerColumn s"
    and "int (currentColumn s) * itemsPerColumn s \<le> i"
    and "i < int (currentColumn s) * itemsPerColumn s + itemsPerColumn s"
  shows "column_consistent s"
  using assms div_bounds [of "itemsPerColumn s" i "int (currentColumn s)"]
  by (simp add: column_consistent_def)

lemma move_activeColumns [simp]:
  "activeColumns (move_down s) = activeColumns s" "activeColumns (move_up s) = activeColumns s"
  "activeColumns (move_to_column col s) = activeColumns s"
  by (simp_all add: move_down_def move_up_def move_to_column_def Let_def)

lemma move_fields [simp]:
  "currentColumn (move_down s) = currentColumn s" "itemsPerColumn (move_down s) = itemsPerColumn s"
  "currentColumn (move_up s) = currentColumn s" "itemsPerColumn (move_up s) = itemsPerColumn s"
  "currentColumn (move_to_column col s) = col" "itemsPerColumn (move_to_column col s) = itemsPerColumn s"
  by (simp_all add: move_down_def move_up_def move_to_column_def itemsPerColumn_def Let_def)

lemma move_down_consistent:
  assumes "column_consistent s" and "cursor_in_range s" and "0 < activeColumns s"
  shows "column_consistent (move_down s)"
proof -
  obtain i where i: "index s = Num i" "0 \<le> i" "i < int (length (choices s))"
    using assms(2) by (auto dest: cursor_in_rangeD)
  have pos: "0 < itemsPerColumn s"
    using assms(2,3) cursor_in_range_nonempty [of s] by (simp add: itemsPerColumn_pos)
  note b = column_consistentD [OF assms(1) i(1) pos]
  show ?thesis
  proof (cases "move_down s = s")
    case True
    with assms(1) show ?thesis by simp
  next
    case False
    then have moved: "index (move_down s) = Num (i + 1)"
      and less: "i < currentColumnStart s + itemsPerColumn s - 1"
      using i by (auto simp: move_down_def split: if_splits)
    show ?thesis
      by (rule column_consistentI [OF moved]) (use pos b less in \<open>simp_all add: currentColumnStart_def\<close>)
  qed
qed

lemma move_up_consistent:
  assumes "column_consistent s" and "cursor_in_range s" and "0 < activeColumns s"
  shows "column_consistent (move_up s)"
proof -
  obtain i where i: "index s = Num i" "0 \<le> i" "i < int (length (choices s))"
    using assms(2) by (auto dest: cursor_in_rangeD)
  have pos: "0 < itemsPerColumn s"
    using assms(2,3) cursor_in_range_nonempty [of s] by (simp add: itemsPerColumn_pos)
  note b = column_consistentD [OF assms(1) i(1) pos]
  show ?thesis
  proof (cases "move_up s = s")
    case True
    with assms(1) show ?thesis by simp
  next
    case False
    then have moved: "index (move_up s) = Num (i - 1)"
      and more: "currentColumnStart s < i"
      using i by (auto simp: move_up_def split: if_splits)
    show ?thesis
      by (rule column_consistentI [OF moved]) (use pos b more in \<open>simp_all add: currentColumnStart_def\<close>)
  qed
qed

text \<open>A move to a column that holds a choice puts the cursor in that column.\<close>

lemma move_to_column_consistent:
  assumes "cursor_in_range s" and "0 < activeColumns s"
    and "int col * itemsPerColumn s < int (length (choices s))"
  shows "column_consistent (move_to_column col s)"
proof -
  obtain i where i: "index s = Num i" "0 \<le> i" "i < int (length (choices s))"
    using assms(1) by (auto dest: cursor_in_rangeD)
  have pos: "0 < itemsPerColumn s"
    using assms(1,2) cursor_in_range_nonempty [of s] by (simp add: itemsPerColumn_pos)
  have row: "currentRow s = Num (i mod itemsPerColumn s)"
    using i js_mod_nonneg [of i "itemsPerColumn s"] pos by (simp add: currentRow_def del: js_mod.simps)
  have r: "0 \<le> i mod itemsPerColumn s" "i mod itemsPerColumn s < itemsPerColumn s"
    using pos by simp_all
  have moved: "index (move_to_column col s) =
      Num (min (int col * itemsPerColumn s + i mod itemsPerColumn s) (int (length (choices s)) - 1))"
    by (simp add: move_to_column_def Let_def row)
  show ?thesis
    by (rule column_consistentI [OF moved]) (use pos r assms(3) in \<open>simp_all add: min_def\<close>)
qed

text \<open>
  So the four arrows keep the active column on the column of the cursor as long as the
  terminal keeps its number of columns and the arrow does not lead to a column without a choice.
\<close>

lemma render_consistent:
  assumes "column_consistent s" and "cursor_in_range s"
    and "activeColumns (updateTerminalDimensions out s) = activeColumns s"
  shows "column_consistent (fst (render re out s))"
proof -
  have "index (fst (render re out s)) = index s" using assms(2) by (rule render_in_range)
  moreover have "itemsPerColumn (fst (render re out s)) = itemsPerColumn s"
    using assms(3) by (simp add: itemsPerColumn_def)
  ultimately show ?thesis using assms(1) by (simp add: column_consistent_def)
qed

lemma arrows_keep_column:
  assumes "column_consistent s" and "cursor_in_range s" and "0 < activeColumns s"
    and "activeColumns (updateTerminalDimensions out s) = activeColumns s"
    and "k \<in> {Down, Up, Right, Left}"
    and "k = Right \<longrightarrow> (int (currentColumn s) + 1) * itemsPerColumn s < int (length (choices s))"
  shows "column_consistent (fst (keypress re fs out k s))"
proof -
  have same: "activeColumns (updateTerminalDimensions out t) = activeColumns t"
    if "activeColumns t = activeColumns s" for t
    using assms(4) that by (simp add: updateTerminalDimensions_def Let_def)
  consider "k = Down" | "k = Up" | "k = Right" | "k = Left" using assms(5) by auto
  then show ?thesis
  proof cases
    case 1
    have "column_consistent (fst (render re out (move_down s)))"
      by (rule render_consistent)
        (simp_all add: move_down_consistent move_down_in_range assms same)
    with 1 show ?thesis by (simp add: keypress_def)
  next
    case 2
    have "column_consistent (fst (render re out (move_up s)))"
      by (rule render_consistent)
        (simp_all add: move_up_consistent move_up_in_range assms same)
    with 2 show ?thesis by (simp add: keypress_def)
  next
    case 3
    with assms(6) have "int (currentColumn s + 1) * itemsPerColumn s < int (length (choices s))"
      by (simp add: algebra_simps)
    then have "column_consistent (move_to_column (currentColumn s + 1) s)"
      using assms(2,3) by (rule move_to_column_consistent [rotated 2])
    then have "column_consistent (fst (render re out (move_to_column (currentColumn s + 1) s)))"
      by (rule render_consistent) (simp_all add: move_to_column_in_range assms same)
    with 3 assms(1) show ?thesis by (simp add: keypress_def)
  next
    case 4
    obtain i where i: "index s = Num i" "0 \<le> i" "i < int (length (choices s))"
      using assms(2) by (auto dest: cursor_in_rangeD)
    have pos: "0 < itemsPerColumn s"
      using assms(2,3) cursor_in_range_nonempty [of s] by (simp add: itemsPerColumn_pos)
    note b = column_consistentD [OF assms(1) i(1) pos]
    have "int (currentColumn s - 1) * itemsPerColumn s \<le> int (currentColumn s) * itemsPerColumn s"
      using pos by (simp add: mult_right_mono)
    with b(1) i(3) have room: "int (currentColumn s - 1) * itemsPerColumn s < int (length (choices s))"
      by simp
    from room have "column_consistent (move_to_column (currentColumn s - 1) s)"
      using assms(2,3) by (rule move_to_column_consistent [rotated 2])
    then have "column_consistent (fst (render re out (move_to_column (currentColumn s - 1) s)))"
      by (rule render_consistent) (simp_all add: move_to_column_in_range assms same)
    with 4 assms(1) show ?thesis by (simp add: keypress_def)
  qed
qed

section \<open>Where the code departs from its specification\<close>

text \<open>
  C4 fails on the code. In the grid selector a column after the last choice is empty, and
  \<open>right\<close> enters it: with one file on a terminal of two columns, and with four files on a
  terminal of three columns after \<open>right\<close> twice, the active column is not the column of the
  cursor. In the selector of \<open>minify-code.js\<close>, \<open>right\<close> with one file changes
  \<open>this.column\<close> to the right column and leaves the cursor on index 0, in the left one.
\<close>

theorem column_marker_leaves_cursor:
  "currentColumn (fst (keypress RegExp_test project two_columns Right
      (constructed two_columns [''a.js'']))) = 1 \<and>
   column_of
     (index (fst (keypress RegExp_test project two_columns Right (constructed two_columns [''a.js'']))))
     (itemsPerColumn (fst (keypress RegExp_test project two_columns Right
        (constructed two_columns [''a.js''])))) = Num 0 \<and>
   currentColumn (run RegExp_test project [(three_columns, Key Right), (three_columns, Key Right)]
      (constructed three_columns [''a'', ''b'', ''c'', ''d''])) = 2 \<and>
   column_of
     (index (run RegExp_test project [(three_columns, Key Right), (three_columns, Key Right)]
        (constructed three_columns [''a'', ''b'', ''c'', ''d''])))
     (itemsPerColumn (run RegExp_test project [(three_columns, Key Right), (three_columns, Key Right)]
        (constructed three_columns [''a'', ''b'', ''c'', ''d'']))) = Num 1 \<and>
   map_option (\<lambda>r. (column_plain (fst r), index (fst r), midPoint (fst r)))
     (keypress_plain RegExp_test project narrow Right (constructed_plain [''a.js'']))
     = Some (OnRight, 0, 1)"
  by code_simp

text \<open>
  C8 fails on the code. With no choice, \<open>render\<close> sets the cursor to \<open>-1\<close> in the grid
  selector and in the scrolling two-column selector, and the grid selector takes the remainder
  of the cursor by zero items per column, which is \<open>NaN\<close>. On a terminal one column wide,
  \<open>render\<close> throws \<open>RangeError\<close> in both, whatever the choices.
\<close>

theorem render_without_choices:
  "index (fst (render RegExp_test narrow (constructed narrow []))) = Num (- 1) \<and>
   itemsPerColumn (fst (render RegExp_test narrow (constructed narrow []))) = 0 \<and>
   localIndex (fst (render RegExp_test narrow (constructed narrow []))) = NaN \<and>
   index (fst (render_pair RegExp_test narrow (constructed_pair narrow []))) = - 1 \<and>
   snd (render RegExp_test tiny (constructed tiny [])) = Some RangeError \<and>
   snd (render_pair RegExp_test tiny (constructed_pair tiny [])) = Some RangeError \<and>
   snd (render RegExp_test tiny (constructed tiny seven)) = Some RangeError"
  by code_simp

section \<open>Properties of the minified JSON\<close>

subsection \<open>Replacing the runs of white space\<close>

lemma replace_spaces_only_space:
  "c \<in> set (replace_spaces b s) \<Longrightarrow> is_space c \<Longrightarrow> c = CHR '' ''"
  by (induction s arbitrary: b) (auto split: if_splits)

lemma replace_spaces_keeps_rest:
  "filter (\<lambda>c. \<not> is_space c) (replace_spaces b s) = filter (\<lambda>c. \<not> is_space c) s"
  by (induction s arbitrary: b) (auto simp: is_space_def)

lemma single_spaced_replace: "single_spaced b (replace_spaces b s)"
  by (induction s arbitrary: b) (auto simp: is_space_def)

lemma single_spaced_nth:
  "single_spaced p s \<Longrightarrow> Suc i < length s \<Longrightarrow> \<not> (is_space (s ! i) \<and> is_space (s ! Suc i))"
proof (induction s arbitrary: p i)
  case Nil
  then show ?case by simp
next
  case (Cons c cs)
  show ?case
  proof (cases i)
    case 0
    with Cons.prems show ?thesis by (cases cs) auto
  next
    case (Suc j)
    with Cons.prems Cons.IH [of "is_space c" j] show ?thesis by simp
  qed
qed

lemma replace_spaces_no_run:
  "Suc i < length (replace_spaces b s) \<Longrightarrow>
   \<not> (replace_spaces b s ! i = CHR '' '' \<and> replace_spaces b s ! Suc i = CHR '' '')"
  using single_spaced_nth [OF single_spaced_replace, of i b s] by (auto simp: is_space_def)

lemma replace_spaces_id: "\<forall>c \<in> set s. \<not> is_space c \<Longrightarrow> replace_spaces b s = s"
  by (induction s arbitrary: b) auto

subsection \<open>Strings that the replacement does not tell apart\<close>

lemma replace_spaces_append:
  "replace_spaces b (x @ y) = replace_spaces b x @ replace_spaces (ends_space b x) y"
  by (induction x arbitrary: b) (auto simp: ends_space_def)

lemma ends_space_append: "ends_space b (x @ y) = ends_space (ends_space b x) y"
  by (simp add: ends_space_def)

lemma alike_refl [simp]: "alike x x"
  by (simp add: alike_def)

lemma alike_append: "alike x x' \<Longrightarrow> alike y y' \<Longrightarrow> alike (x @ y) (x' @ y')"
  by (simp add: alike_def replace_spaces_append ends_space_append)

lemma alike_two_spaces: "alike ''  '' '' ''"
  by (simp add: alike_def ends_space_def is_space_def)

lemma alike_replace: "alike x y \<Longrightarrow> replace_spaces b x = replace_spaces b y"
  by (simp add: alike_def)


subsection \<open>Objects that differ in runs of spaces only\<close>

lemma alike_objects_Nil [simp]: "alike_objects [] []"
  by (simp add: alike_objects_def)

lemma alike_objects_Cons [simp]:
  "alike_objects ((k, v) # obj) ((k', v') # obj') \<longleftrightarrow>
     k = k' \<and> alike (quote v) (quote v') \<and> alike_objects obj obj'"
  by (simp add: alike_objects_def)

lemma alike_objects_induct [consumes 1, case_names Nil Cons]:
  assumes "alike_objects obj obj'"
    and "P [] []"
    and "\<And>k v v' obj obj'. alike (quote v) (quote v') \<Longrightarrow> alike_objects obj obj' \<Longrightarrow> P obj obj' \<Longrightarrow>
           P ((k, v) # obj) ((k, v') # obj')"
  shows "P obj obj'"
  using assms(1) unfolding alike_objects_def
proof (induction rule: list_all2_induct)
  case Nil
  show ?case by (rule assms(2))
next
  case (Cons x xs y ys)
  obtain k v where x: "x = (k, v)" by (cases x)
  obtain k' v' where y: "y = (k', v')" by (cases y)
  from Cons(1) have "k = k'" "alike (quote v) (quote v')" by (simp_all add: x y)
  moreover have "alike_objects xs ys" using Cons(2) by (simp add: alike_objects_def)
  ultimately show ?case using assms(3) [of v v' xs ys k] Cons(3) by (simp add: x y)
qed

lemma alike_objects_update:
  "alike_objects obj obj' \<Longrightarrow> alike (quote v) (quote v') \<Longrightarrow>
   alike_objects (AList.update k v obj) (AList.update k v' obj')"
  by (induction rule: alike_objects_induct) auto

lemma alike_objects_readFiles_into:
  assumes "\<And>p. rel_option (\<lambda>v v'. alike (quote v) (quote v')) (fs p) (fs' p)"
  shows "alike_objects code code' \<Longrightarrow>
         alike_objects (readFiles_into fs files code) (readFiles_into fs' files code')"
proof (induction files arbitrary: code code')
  case Nil
  then show ?case by simp
next
  case (Cons f files)
  show ?case
  proof (cases "fs f")
    case None
    with assms [of f] have "fs' f = None" by (cases "fs' f") auto
    with None Cons show ?thesis by simp
  next
    case (Some v)
    with assms [of f] obtain v' where v': "fs' f = Some v'" "alike (quote v) (quote v')"
      by (cases "fs' f") auto
    have "alike_objects (set_property f v code) (set_property f v' code')"
      using Cons.prems v'(2) by (simp add: set_property_def alike_objects_update)
    then show ?thesis using Some v'(1) Cons.IH by simp
  qed
qed

lemma alike_objects_filter:
  "alike_objects obj obj' \<Longrightarrow>
   alike_objects (filter (\<lambda>(k, v). P k) obj) (filter (\<lambda>(k, v). P k) obj')"
  by (induction rule: alike_objects_induct) auto

lemma alike_objects_insort:
  "alike_objects obj obj' \<Longrightarrow> alike (quote v) (quote v') \<Longrightarrow>
   alike_objects (insort_key (\<lambda>(k, v). g k) (k, v) obj) (insort_key (\<lambda>(k, v). g k) (k, v') obj')"
  by (induction rule: alike_objects_induct) auto

lemma alike_objects_sort:
  "alike_objects obj obj' \<Longrightarrow>
   alike_objects (sort_key (\<lambda>(k, v). g k) obj) (sort_key (\<lambda>(k, v). g k) obj')"
  by (induction rule: alike_objects_induct) (auto simp: alike_objects_insort)

lemma alike_objects_append:
  "alike_objects a a' \<Longrightarrow> alike_objects b b' \<Longrightarrow> alike_objects (a @ b) (a' @ b')"
  by (simp add: alike_objects_def list_all2_appendI)

lemma alike_objects_order:
  "alike_objects obj obj' \<Longrightarrow> alike_objects (own_keys_order obj) (own_keys_order obj')"
  unfolding own_keys_order_def
  by (intro alike_objects_append alike_objects_sort alike_objects_filter)

lemma alike_join:
  "alike_objects obj obj' \<Longrightarrow>
   alike (join_with sep (map (\<lambda>(k, v). quote k @ '':'' @ quote v) obj))
         (join_with sep (map (\<lambda>(k, v). quote k @ '':'' @ quote v) obj'))"
proof (induction rule: alike_objects_induct)
  case Nil
  show ?case by simp
next
  case (Cons k v v' obj obj')
  have entry: "alike (quote k @ '':'' @ quote v) (quote k @ '':'' @ quote v')"
    using Cons(1) by (intro alike_append alike_refl)
  show ?case
  proof (cases obj)
    case Nil
    with Cons(2) have "obj' = []" by (simp add: alike_objects_def)
    with Nil entry show ?thesis by simp
  next
    case (Cons e rest)
    with Cons.hyps(2) obtain e' rest' where "obj' = e' # rest'"
      by (cases obj') (auto simp: alike_objects_def)
    with Cons alike_append [OF entry alike_append [OF alike_refl [of sep] Cons.IH]]
    show ?thesis by simp
  qed
qed

lemma alike_stringify:
  "alike_objects obj obj' \<Longrightarrow> alike (JSON_stringify obj) (JSON_stringify obj')"
  unfolding JSON_stringify_def
  by (intro alike_append alike_refl alike_join alike_objects_order)

lemma alike_quote_two_spaces: "alike (quote (c @ ''  '' @ d)) (quote (c @ '' '' @ d))"
proof -
  have q: "concat (map quote_char (c @ sp @ d)) =
      concat (map quote_char c) @ concat (map quote_char sp) @ concat (map quote_char d)" for sp
    by simp
  have "concat (map quote_char ''  '') = ''  ''" "concat (map quote_char '' '') = '' ''"
    by (simp_all add: quote_char_def)
  then show ?thesis
    unfolding quote_def q by (intro alike_append alike_refl) (simp add: alike_two_spaces)
qed

lemma minify_two_spaces:
  "minifyAndSave (fs(f \<mapsto> c @ ''  '' @ d)) files = minifyAndSave (fs(f \<mapsto> c @ '' '' @ d)) files"
proof -
  have "rel_option (\<lambda>v v'. alike (quote v) (quote v'))
          ((fs(f \<mapsto> c @ ''  '' @ d)) p) ((fs(f \<mapsto> c @ '' '' @ d)) p)" for p
    using alike_quote_two_spaces [of c d] by (cases "fs p") simp_all
  then have "alike_objects (readFiles (fs(f \<mapsto> c @ ''  '' @ d)) files)
                           (readFiles (fs(f \<mapsto> c @ '' '' @ d)) files)"
    unfolding readFiles_def by (intro alike_objects_readFiles_into) simp_all
  then have "replace_spaces False (JSON_stringify (readFiles (fs(f \<mapsto> c @ ''  '' @ d)) files)) =
             replace_spaces False (JSON_stringify (readFiles (fs(f \<mapsto> c @ '' '' @ d)) files))"
    by (intro alike_replace alike_stringify)
  then show ?thesis by (simp add: minifyAndSave_def Let_def)
qed


lemma readFiles_differ:
  assumes "f \<noteq> ''__proto__''" and "fs f = Some v"
  shows "readFiles fs [f] = [(f, v)]"
  using assms by (simp add: readFiles_def set_property_def)

lemma minify_not_injective:
  assumes "f \<noteq> ''__proto__''"
  shows "\<not> (\<exists>parse. \<forall>fs. parse (snd (minifyAndSave fs [f])) = readFiles fs [f])"
proof
  assume "\<exists>parse. \<forall>fs. parse (snd (minifyAndSave fs [f])) = readFiles fs [f]"
  then obtain parse where p: "\<And>fs. parse (snd (minifyAndSave fs [f])) = readFiles fs [f]" by blast
  let ?two = "(\<lambda>p. None)(f \<mapsto> [] @ ''  '' @ [])" and ?one = "(\<lambda>p. None)(f \<mapsto> [] @ '' '' @ [])"
  have "minifyAndSave ?two [f] = minifyAndSave ?one [f]" by (rule minify_two_spaces)
  then have "readFiles ?two [f] = readFiles ?one [f]" using p [of ?two] p [of ?one] by simp
  moreover have "readFiles ?two [f] = [(f, ''  '')]" using assms by (simp add: readFiles_differ)
  moreover have "readFiles ?one [f] = [(f, '' '')]" using assms by (simp add: readFiles_differ)
  ultimately show False by simp
qed

subsection \<open>Contents without spaces\<close>

lemma hex_digit_no_space: "\<not> is_space (hex_digit n)"
proof -
  have "hex_digit n \<in> set ''0123456789abcdef''"
    unfolding hex_digit_def by (rule nth_mem) simp
  then show ?thesis by (auto simp: is_space_def)
qed

lemma quote_char_no_space: "\<not> plain_space c \<Longrightarrow> x \<in> set (quote_char c) \<Longrightarrow> \<not> is_space x"
  using hex_digit_no_space
  by (auto simp: quote_char_def Let_def is_space_def plain_space_def split: if_splits)

lemma quote_no_space:
  assumes "\<forall>c \<in> set s. \<not> plain_space c" and "x \<in> set (quote s)"
  shows "\<not> is_space x"
proof -
  from assms(2) consider "x = CHR 0x22" | c where "c \<in> set s" "x \<in> set (quote_char c)"
    by (auto simp: quote_def)
  then show ?thesis
  proof cases
    case 1
    then show ?thesis by (simp add: is_space_def)
  next
    case 2
    from assms(1) 2(1) have "\<not> plain_space c" by simp
    then show ?thesis using 2(2) by (rule quote_char_no_space)
  qed
qed

lemma set_join_with: "set (join_with sep xs) \<subseteq> set sep \<union> (\<Union>x \<in> set xs. set x)"
  by (induction sep xs rule: join_with.induct) auto

lemma set_update_alist: "set (AList.update k v al) \<subseteq> insert (k, v) (set al)"
  by (induction al) auto

lemma readFiles_into_entries:
  "(k, v) \<in> set (readFiles_into fs files code) \<Longrightarrow>
   (k, v) \<in> set code \<or> (k \<in> set files \<and> fs k = Some v)"
proof (induction files arbitrary: code)
  case Nil
  then show ?case by simp
next
  case (Cons f files)
  show ?case
  proof (cases "fs f")
    case None
    with Cons show ?thesis by auto
  next
    case (Some c)
    with Cons.prems have "(k, v) \<in> set (readFiles_into fs files (set_property f c code))" by simp
    then have "(k, v) \<in> set (set_property f c code) \<or> (k \<in> set files \<and> fs k = Some v)"
      by (rule Cons.IH)
    moreover have "set (set_property f c code) \<subseteq> insert (f, c) (set code)"
      using set_update_alist [of f c code] by (auto simp: set_property_def)
    ultimately show ?thesis using Some by auto
  qed
qed

lemma set_own_keys_order: "set (own_keys_order obj) = set obj"
  by (auto simp: own_keys_order_def)

lemma stringify_no_space:
  assumes "\<forall>(k, v) \<in> set obj. \<forall>c \<in> set (k @ v). \<not> plain_space c"
  shows "\<forall>x \<in> set (JSON_stringify obj). \<not> is_space x"
proof
  fix x
  assume "x \<in> set (JSON_stringify obj)"
  then have "x \<in> set ''{},'' \<or>
      x \<in> (\<Union>e \<in> set (map (\<lambda>(k, v). quote k @ '':'' @ quote v) (own_keys_order obj)). set e)"
    using set_join_with [of "'',''" "map (\<lambda>(k, v). quote k @ '':'' @ quote v) (own_keys_order obj)"]
    by (auto simp: JSON_stringify_def)
  then show "\<not> is_space x"
  proof
    assume "x \<in> set ''{},''"
    then show ?thesis by (auto simp: is_space_def)
  next
    assume "x \<in> (\<Union>e \<in> set (map (\<lambda>(k, v). quote k @ '':'' @ quote v) (own_keys_order obj)). set e)"
    then obtain k v where kv: "(k, v) \<in> set obj" and x: "x \<in> set (quote k @ '':'' @ quote v)"
      by (auto simp: set_own_keys_order)
    from kv assms have "\<forall>c \<in> set k. \<not> plain_space c" "\<forall>c \<in> set v. \<not> plain_space c" by auto
    from x consider "x \<in> set (quote k)" | "x = CHR '':''" | "x \<in> set (quote v)" by auto
    then show ?thesis
    proof cases
      case 1
      with \<open>\<forall>c \<in> set k. \<not> plain_space c\<close> show ?thesis by (rule quote_no_space)
    next
      case 2
      then show ?thesis by (simp add: is_space_def)
    next
      case 3
      with \<open>\<forall>c \<in> set v. \<not> plain_space c\<close> show ?thesis by (rule quote_no_space)
    qed
  qed
qed

lemma minify_without_spaces:
  assumes "\<forall>p \<in> set files. \<forall>v. fs p = Some v \<longrightarrow> (\<forall>c \<in> set (p @ v). \<not> plain_space c)"
  shows "snd (minifyAndSave fs files) = JSON_stringify (readFiles fs files)"
proof -
  have "\<forall>(k, v) \<in> set (readFiles fs files). \<forall>c \<in> set (k @ v). \<not> plain_space c"
    using assms readFiles_into_entries [of _ _ fs files "[]"] by (fastforce simp: readFiles_def)
  then have "\<forall>x \<in> set (JSON_stringify (readFiles fs files)). \<not> is_space x"
    by (rule stringify_no_space)
  then show ?thesis by (simp add: minifyAndSave_def Let_def replace_spaces_id)
qed


subsection \<open>The file that is written\<close>

text \<open>
  C10: \<open>minifyAndSave\<close> writes to \<open>json-project/project-code.min.json\<close> the JSON text of the
  object of paths and contents with every run of white space replaced by one space. So the
  text has no white space but single spaces, and its other characters are those of the JSON
  text, in order: the escapes of newlines and tabs are kept. Two spaces in a row in the
  content of a file give the same text as one space, whatever else is selected, so no
  function of the written text gives back the contents of every file; and where no path and
  no content has a space or a no-break space, the text is the JSON text itself.
\<close>

theorem minified_json_collapses_spaces:
  "fst (minifyAndSave fs files) = ''json-project/project-code.min.json'' \<and>
   snd (minifyAndSave fs files) = replace_spaces False (JSON_stringify (readFiles fs files)) \<and>
   (\<forall>x \<in> set (snd (minifyAndSave fs files)). is_space x \<longrightarrow> x = CHR '' '') \<and>
   (\<forall>i. Suc i < length (snd (minifyAndSave fs files)) \<longrightarrow>
      \<not> (snd (minifyAndSave fs files) ! i = CHR '' '' \<and> snd (minifyAndSave fs files) ! Suc i = CHR '' '')) \<and>
   filter (\<lambda>x. \<not> is_space x) (snd (minifyAndSave fs files))
     = filter (\<lambda>x. \<not> is_space x) (JSON_stringify (readFiles fs files)) \<and>
   minifyAndSave (fs(f \<mapsto> c @ ''  '' @ d)) files = minifyAndSave (fs(f \<mapsto> c @ '' '' @ d)) files \<and>
   (f \<noteq> ''__proto__'' \<longrightarrow>
      \<not> (\<exists>parse. \<forall>fs. parse (snd (minifyAndSave fs [f])) = readFiles fs [f])) \<and>
   ((\<forall>p \<in> set files. \<forall>v. fs p = Some v \<longrightarrow> (\<forall>x \<in> set (p @ v). \<not> plain_space x)) \<longrightarrow>
      snd (minifyAndSave fs files) = JSON_stringify (readFiles fs files))"
proof -
  have target: "fst (minifyAndSave fs files) = ''json-project/project-code.min.json''"
    by (simp add: minifyAndSave_def JSON_DIR_def Let_def)
  have written: "snd (minifyAndSave fs files) = replace_spaces False (JSON_stringify (readFiles fs files))"
    by (simp add: minifyAndSave_def Let_def)
  have only: "\<forall>x \<in> set (snd (minifyAndSave fs files)). is_space x \<longrightarrow> x = CHR '' ''"
    unfolding written using replace_spaces_only_space by blast
  have no_run: "\<forall>i. Suc i < length (snd (minifyAndSave fs files)) \<longrightarrow>
      \<not> (snd (minifyAndSave fs files) ! i = CHR '' '' \<and> snd (minifyAndSave fs files) ! Suc i = CHR '' '')"
    unfolding written using replace_spaces_no_run by blast
  have rest: "filter (\<lambda>x. \<not> is_space x) (snd (minifyAndSave fs files))
     = filter (\<lambda>x. \<not> is_space x) (JSON_stringify (readFiles fs files))"
    unfolding written by (rule replace_spaces_keeps_rest)
  have spaces: "minifyAndSave (fs(f \<mapsto> c @ ''  '' @ d)) files = minifyAndSave (fs(f \<mapsto> c @ '' '' @ d)) files"
    by (rule minify_two_spaces)
  have lossy: "f \<noteq> ''__proto__'' \<longrightarrow>
      \<not> (\<exists>parse. \<forall>fs. parse (snd (minifyAndSave fs [f])) = readFiles fs [f])"
    using minify_not_injective [of f] by blast
  have plain: "(\<forall>p \<in> set files. \<forall>v. fs p = Some v \<longrightarrow> (\<forall>x \<in> set (p @ v). \<not> plain_space x)) \<longrightarrow>
      snd (minifyAndSave fs files) = JSON_stringify (readFiles fs files)"
    using minify_without_spaces [of files fs] by blast
  show ?thesis by (intro conjI target written only no_run rest spaces lossy plain)
qed

text \<open>
  C10 on a file \<open>f.txt\<close>: with the content \<open>a\<close>, newline, tab, \<open>b\<close> the written text keeps both
  escapes; with \<open>a\<close>, two spaces, \<open>b\<close> it has one space, as with \<open>a\<close>, one space, \<open>b\<close>.
\<close>

theorem minified_json_collapses_spaces_witness:
  "snd (minifyAndSave memo [''f.txt'']) =
     [CHR ''{'', CHR 0x22] @ ''f.txt'' @ [CHR 0x22, CHR '':'', CHR 0x22] @ ''a'' @
     [backslash, CHR ''n'', backslash, CHR ''t''] @ ''b'' @ [CHR 0x22, CHR ''}''] \<and>
   snd (minifyAndSave (memo(''f.txt'' \<mapsto> ''a'' @ ''  '' @ ''b'')) [''f.txt'']) =
     [CHR ''{'', CHR 0x22] @ ''f.txt'' @ [CHR 0x22, CHR '':'', CHR 0x22] @ ''a b'' @ [CHR 0x22, CHR ''}''] \<and>
   minifyAndSave (memo(''f.txt'' \<mapsto> ''a'' @ ''  '' @ ''b'')) [''f.txt''] =
     minifyAndSave (memo(''f.txt'' \<mapsto> ''a'' @ '' '' @ ''b'')) [''f.txt''] \<and>
   \<not> (\<exists>parse. \<forall>fs. parse (snd (minifyAndSave fs [''f.txt''])) = readFiles fs [''f.txt''])"
proof -
  note t = minified_json_collapses_spaces [of memo "[''f.txt'']" "''f.txt''" "''a''" "''b''"]
  have "\<forall>p \<in> set [''f.txt'']. \<forall>v. memo p = Some v \<longrightarrow> (\<forall>x \<in> set (p @ v). \<not> plain_space x)"
    by (simp add: memo_def plain_space_def)
  with t have "snd (minifyAndSave memo [''f.txt'']) = JSON_stringify (readFiles memo [''f.txt''])"
    by blast
  moreover have "JSON_stringify (readFiles memo [''f.txt'']) =
     [CHR ''{'', CHR 0x22] @ ''f.txt'' @ [CHR 0x22, CHR '':'', CHR 0x22] @ ''a'' @
     [backslash, CHR ''n'', backslash, CHR ''t''] @ ''b'' @ [CHR 0x22, CHR ''}'']"
    by code_simp
  moreover have "snd (minifyAndSave (memo(''f.txt'' \<mapsto> ''a'' @ ''  '' @ ''b'')) [''f.txt'']) =
     [CHR ''{'', CHR 0x22] @ ''f.txt'' @ [CHR 0x22, CHR '':'', CHR 0x22] @ ''a b'' @ [CHR 0x22, CHR ''}'']"
    by code_simp
  moreover from t have "minifyAndSave (memo(''f.txt'' \<mapsto> ''a'' @ ''  '' @ ''b'')) [''f.txt''] =
     minifyAndSave (memo(''f.txt'' \<mapsto> ''a'' @ '' '' @ ''b'')) [''f.txt'']"
    by blast
  moreover have "''f.txt'' \<noteq> ''__proto__''" by simp
  with t have "\<not> (\<exists>parse. \<forall>fs. parse (snd (minifyAndSave fs [''f.txt''])) = readFiles fs [''f.txt''])"
    by blast
  ultimately show ?thesis by (simp only: simp_thms)
qed

end
